theory Spec2Isabelle
  imports Main
begin

section \<open>Python dictionaries and exceptions\<close>

text \<open>
  The program is a Python script around the class \<open>WikiDataQueryResults\<close>. An exception
  is a value of \<open>py_error\<close>: \<open>KeyError k\<close> is what subscripting a dict with a key it does
  not hold raises; \<open>TypeError\<close> is what subscripting or iterating a value of the wrong kind
  raises; \<open>IndexError\<close> is what a list index out of range raises; \<open>LibraryError n\<close> is an
  exception of class \<open>n\<close> raised inside \<open>SPARQLWrapper\<close> (the transport, the endpoint's
  answer, the JSON decoder). The source has no \<open>try\<close> and defines no exception class of
  its own: an exception leaves the program as it was raised.
\<close>

datatype py_error = KeyError string | TypeError | IndexError | LibraryError string

text \<open>
  A \<open>dict\<close> keeps its keys in insertion order: an association list whose keys are
  distinct. \<open>d[k]\<close> is \<open>getitem\<close>, \<open>d[k] = v\<close> is \<open>setitem\<close> (an existing key keeps
  its place, a new one goes last).
\<close>

type_synonym ('k, 'v) dict = "('k \<times> 'v) list"

definition getitem :: "(string, 'v) dict \<Rightarrow> string \<Rightarrow> py_error + 'v" where
  "getitem d k = (case map_of d k of None \<Rightarrow> Inl (KeyError k) | Some v \<Rightarrow> Inr v)"

fun setitem :: "('k, 'v) dict \<Rightarrow> 'k \<Rightarrow> 'v \<Rightarrow> ('k, 'v) dict" where
  "setitem [] k v = [(k, v)]"
| "setitem ((k', v') # d) k v = (if k' = k then (k, v) # d else (k', v') # setitem d k v)"

definition keys :: "('k, 'v) dict \<Rightarrow> 'k list" where
  "keys d = map fst d"

section \<open>The endpoint's answer\<close>

text \<open>
  \<open>convert()\<close> returns what the JSON decoder makes of the endpoint's answer, which can be
  any JSON value: \<open>None\<close>, a \<open>bool\<close>, an \<open>int\<close>, a \<open>float\<close> (kept as its literal, no
  arithmetic is done on it), a \<open>str\<close>, a \<open>list\<close> or a \<open>dict\<close> with string keys. A
  well-formed answer is \<open>{"results": {"bindings": [row, ...]}}\<close>.
\<close>

datatype json =
    JNull
  | JBool bool
  | JInt int
  | JFloat string
  | JString string
  | JArray "json list"
  | JObject "(string \<times> json) list"

text \<open>\<open>j[k]\<close> with a string \<open>k\<close>: only a dict can be subscripted with a string.\<close>

fun subscript :: "json \<Rightarrow> string \<Rightarrow> py_error + json" where
  "subscript (JObject d) k = getitem d k"
| "subscript JNull k = Inl TypeError"
| "subscript (JBool b) k = Inl TypeError"
| "subscript (JInt i) k = Inl TypeError"
| "subscript (JFloat f) k = Inl TypeError"
| "subscript (JString s) k = Inl TypeError"
| "subscript (JArray xs) k = Inl TypeError"

text \<open>\<open>for x in j\<close>: a list gives its elements, a dict its keys, a string its characters;
  nothing else can be iterated.\<close>

fun iterate :: "json \<Rightarrow> py_error + json list" where
  "iterate (JArray xs) = Inr xs"
| "iterate (JObject d) = Inr (map JString (keys d))"
| "iterate (JString s) = Inr (map (\<lambda>c. JString [c]) s)"
| "iterate JNull = Inl TypeError"
| "iterate (JBool b) = Inl TypeError"
| "iterate (JInt i) = Inl TypeError"
| "iterate (JFloat f) = Inl TypeError"

text \<open>\<open>xs[key]\<close> on a list: the key must be an \<open>int\<close> (a \<open>bool\<close> is one: \<open>False\<close> is 0
  and \<open>True\<close> is 1), a negative index counts from the end, and an index out of range is
  an \<open>IndexError\<close>.\<close>

definition list_at :: "json list \<Rightarrow> int \<Rightarrow> py_error + json" where
  "list_at xs i =
     (if 0 \<le> i \<and> i < int (length xs) then Inr (xs ! nat i)
      else if i < 0 \<and> - int (length xs) \<le> i then Inr (xs ! nat (i + int (length xs)))
      else Inl IndexError)"

fun list_item :: "json list \<Rightarrow> json \<Rightarrow> py_error + json" where
  "list_item xs (JInt i) = list_at xs i"
| "list_item xs (JBool b) = list_at xs (if b then 1 else 0)"
| "list_item xs JNull = Inl TypeError"
| "list_item xs (JFloat f) = Inl TypeError"
| "list_item xs (JString s) = Inl TypeError"
| "list_item xs (JArray ys) = Inl TypeError"
| "list_item xs (JObject d) = Inl TypeError"

text \<open>
  The source annotates \<open>__transform2dicts\<close> with \<open>List[Dict]\<close>. On values of that type
  one term of a result row is a dict of strings (\<open>type\<close>, \<open>value\<close>, \<open>datatype\<close>,
  \<open>xml:lang\<close>) and a result row maps each bound variable to its term.
\<close>

type_synonym binding = "(string, string) dict"
type_synonym raw_row = "(string, binding) dict"
type_synonym flat_row = "(string, string) dict"

section \<open>\<open>WikiDataQueryResults.__transform2dicts\<close>\<close>

text \<open>
  The inner loop, \<open>for key in result: new_result[key] = result[key]['value']\<close>, over the
  keys still to visit, with \<open>new_result\<close> as accumulator.
\<close>

fun transform_keys :: "raw_row \<Rightarrow> string list \<Rightarrow> flat_row \<Rightarrow> py_error + flat_row" where
  "transform_keys result [] new_result = Inr new_result"
| "transform_keys result (key # ks) new_result =
     (case getitem result key of
        Inl e \<Rightarrow> Inl e
      | Inr b \<Rightarrow>
          (case getitem b ''value'' of
             Inl e \<Rightarrow> Inl e
           | Inr v \<Rightarrow> transform_keys result ks (setitem new_result key v)))"

definition transform_row :: "raw_row \<Rightarrow> py_error + flat_row" where
  "transform_row result = transform_keys result (keys result) []"

text \<open>The outer loop, \<open>for result in results: ... new_results.append(new_result)\<close>.\<close>

fun transform_rows :: "raw_row list \<Rightarrow> flat_row list \<Rightarrow> py_error + flat_row list" where
  "transform_rows [] new_results = Inr new_results"
| "transform_rows (result # results) new_results =
     (case transform_row result of
        Inl e \<Rightarrow> Inl e
      | Inr new_result \<Rightarrow> transform_rows results (new_results @ [new_result]))"

definition transform2dicts :: "raw_row list \<Rightarrow> py_error + flat_row list" where
  "transform2dicts results = transform_rows results []"

text \<open>A row as the specification describes it: every term has a \<open>value\<close> field.\<close>

definition has_values :: "raw_row \<Rightarrow> bool" where
  "has_values result = list_all (\<lambda>(key, b). map_of b ''value'' \<noteq> None) result"

subsection \<open>The same function on any answer\<close>

text \<open>
  Python checks no annotation: \<open>__transform2dicts\<close> runs on whatever \<open>bindings\<close> is. The
  same two loops on any JSON value follow. A flat row then maps its keys to JSON values.
\<close>

type_synonym json_row = "(string, json) dict"

text \<open>The inner loop when \<open>result\<close> is a dict: its keys are strings, \<open>result[key]\<close> is there,
  and \<open>['value']\<close> is a subscript of whatever the term is.\<close>

fun transform_object :: "(string, json) dict \<Rightarrow> string list \<Rightarrow> json_row \<Rightarrow> py_error + json_row" where
  "transform_object result [] new_result = Inr new_result"
| "transform_object result (key # ks) new_result =
     (case getitem result key of
        Inl e \<Rightarrow> Inl e
      | Inr b \<Rightarrow>
          (case subscript b ''value'' of
             Inl e \<Rightarrow> Inl e
           | Inr v \<Rightarrow> transform_object result ks (setitem new_result key v)))"

text \<open>
  The inner loop when \<open>result\<close> is a list: the keys are its elements and \<open>result[key]\<close>
  is a list index. \<open>array_walk\<close> returns the exception the loop ends with, or \<open>None\<close> when
  the loop runs to its end. That happens for the empty list only (\<open>array_walk_None_iff\<close>
  below: an element that is a good index points at an element that has a \<open>value\<close>, which
  is a dict and so itself no index), and then \<open>new_result\<close> is \<open>{}\<close>.
\<close>

fun array_walk :: "json list \<Rightarrow> json list \<Rightarrow> py_error option" where
  "array_walk result [] = None"
| "array_walk result (key # ks) =
     (case list_item result key of
        Inl e \<Rightarrow> Some e
      | Inr b \<Rightarrow>
          (case subscript b ''value'' of
             Inl e \<Rightarrow> Some e
           | Inr v \<Rightarrow> array_walk result ks))"

text \<open>
  One pass of the outer loop's body. When \<open>result\<close> is a string its keys are its
  characters, and \<open>result[key]\<close> with a string key is a \<open>TypeError\<close> at the first of them;
  the empty string gives \<open>{}\<close>. Anything but a dict, a list or a string cannot be iterated.
\<close>

fun transform_result :: "json \<Rightarrow> py_error + json_row" where
  "transform_result (JObject d) = transform_object d (keys d) []"
| "transform_result (JArray xs) = (case array_walk xs xs of Some e \<Rightarrow> Inl e | None \<Rightarrow> Inr [])"
| "transform_result (JString s) = (if s = [] then Inr [] else Inl TypeError)"
| "transform_result JNull = Inl TypeError"
| "transform_result (JBool b) = Inl TypeError"
| "transform_result (JInt i) = Inl TypeError"
| "transform_result (JFloat f) = Inl TypeError"

fun transform_results :: "json list \<Rightarrow> json_row list \<Rightarrow> py_error + json_row list" where
  "transform_results [] new_results = Inr new_results"
| "transform_results (result # results) new_results =
     (case transform_result result of
        Inl e \<Rightarrow> Inl e
      | Inr new_result \<Rightarrow> transform_results results (new_results @ [new_result]))"

definition transform2dicts_json :: "json \<Rightarrow> py_error + json_row list" where
  "transform2dicts_json results =
     (case iterate results of
        Inl e \<Rightarrow> Inl e
      | Inr items \<Rightarrow> transform_results items [])"

text \<open>A value of the annotated type as the JSON value it is.\<close>

definition json_of_flat :: "flat_row \<Rightarrow> json_row" where
  "json_of_flat row = map (\<lambda>(key, v). (key, JString v)) row"

definition json_of_row :: "raw_row \<Rightarrow> json" where
  "json_of_row result = JObject (map (\<lambda>(key, b). (key, JObject (json_of_flat b))) result)"

section \<open>The table: \<open>pandas.DataFrame\<close>\<close>

text \<open>
  A cell of a frame: a string of the endpoint, a number (a year), a timestamp, one of
  the two missing values, \<open>NaN\<close> and \<open>NaT\<close>, or any other value of the answer, held as it
  is.
\<close>

datatype timestamp = Date (year: int) (month: nat) (day: nat) (hour: nat) (minute: nat) (second: nat)

datatype cell = Str string | Number int | Timestamp timestamp | NaN | NaT | Obj json

text \<open>
  A frame is column-major, as in pandas: the length of its index and its columns in
  order, each with one cell per row.
\<close>

record dataframe =
  nrows :: nat
  columns :: "(string, cell list) dict"

text \<open>
  The labels of a list of dicts in the order they are first met, which is the column
  order \<open>pandas.DataFrame\<close> gives a list of dicts.
\<close>

fun first_seen :: "'a list \<Rightarrow> 'a list \<Rightarrow> 'a list" where
  "first_seen seen [] = seen"
| "first_seen seen (x # xs) = first_seen (if x \<in> set seen then seen else seen @ [x]) xs"

definition cell_of :: "flat_row \<Rightarrow> string \<Rightarrow> cell" where
  "cell_of row c = (case map_of row c of None \<Rightarrow> NaN | Some v \<Rightarrow> Str v)"

definition DataFrame :: "flat_row list \<Rightarrow> dataframe" where
  "DataFrame data =
     \<lparr>nrows = length data,
      columns = map (\<lambda>c. (c, map (\<lambda>row. cell_of row c) data)) (first_seen [] (concat (map keys data)))\<rparr>"

text \<open>
  The same constructor on rows of JSON values: a string is a string cell, an \<open>int\<close> a
  number, \<open>None\<close> a missing value, and anything else is held as it is.
\<close>

fun json_cell :: "json \<Rightarrow> cell" where
  "json_cell (JString s) = Str s"
| "json_cell (JInt i) = Number i"
| "json_cell JNull = NaN"
| "json_cell (JBool b) = Obj (JBool b)"
| "json_cell (JFloat f) = Obj (JFloat f)"
| "json_cell (JArray xs) = Obj (JArray xs)"
| "json_cell (JObject d) = Obj (JObject d)"

definition cell_of_json :: "json_row \<Rightarrow> string \<Rightarrow> cell" where
  "cell_of_json row c = (case map_of row c of None \<Rightarrow> NaN | Some v \<Rightarrow> json_cell v)"

definition DataFrame_json :: "json_row list \<Rightarrow> dataframe" where
  "DataFrame_json data =
     \<lparr>nrows = length data,
      columns = map (\<lambda>c. (c, map (\<lambda>row. cell_of_json row c) data))
                  (first_seen [] (concat (map keys data)))\<rparr>"

text \<open>Row \<open>i\<close> of a frame, as a dict from column label to cell (\<open>df.iloc[i]\<close>).\<close>

definition iloc :: "dataframe \<Rightarrow> nat \<Rightarrow> (string, cell) dict" where
  "iloc df i = map (\<lambda>(c, cells). (c, cells ! i)) (columns df)"

section \<open>\<open>_load\<close> and \<open>execute_query\<close>\<close>

text \<open>
  The remote endpoint is state outside the program: \<open>replies ep n\<close> is what the round
  trip number \<open>n\<close> ends with (an exception of the library, or the decoded answer), and
  \<open>requests ep\<close> counts the round trips made so far.
\<close>

type_synonym reply = "py_error + json"

record endpoint =
  replies :: "nat \<Rightarrow> reply"
  requests :: nat

text \<open>\<open>self.sparql.query().convert()\<close>: one round trip.\<close>

definition query_convert :: "endpoint \<Rightarrow> reply \<times> endpoint" where
  "query_convert ep = (replies ep (requests ep), ep\<lparr>requests := Suc (requests ep)\<rparr>)"

text \<open>Line 55, \<open>...convert()['results']['bindings']\<close>, and line 56.\<close>

definition load :: "endpoint \<Rightarrow> (py_error + json_row list) \<times> endpoint" where
  "load ep =
     (case query_convert ep of
        (Inl e, ep') \<Rightarrow> (Inl e, ep')
      | (Inr doc, ep') \<Rightarrow>
          (case subscript doc ''results'' of
             Inl e \<Rightarrow> (Inl e, ep')
           | Inr res \<Rightarrow>
               (case subscript res ''bindings'' of
                  Inl e \<Rightarrow> (Inl e, ep')
                | Inr results \<Rightarrow> (transform2dicts_json results, ep'))))"

definition execute_query :: "endpoint \<Rightarrow> (py_error + dataframe) \<times> endpoint" where
  "execute_query ep =
     (case load ep of
        (Inl e, ep') \<Rightarrow> (Inl e, ep')
      | (Inr query_results, ep') \<Rightarrow> (Inr (DataFrame_json query_results), ep'))"

section \<open>The albums report\<close>

subsection \<open>Subscripts of a frame\<close>

text \<open>\<open>df[c]\<close> raises \<open>KeyError\<close> for a label the frame does not have; \<open>df[c] = series\<close>
  replaces the column in place or appends a new one after the others.\<close>

definition df_getitem :: "dataframe \<Rightarrow> string \<Rightarrow> py_error + cell list" where
  "df_getitem df c = getitem (columns df) c"

definition df_setitem :: "dataframe \<Rightarrow> string \<Rightarrow> cell list \<Rightarrow> dataframe" where
  "df_setitem df c series = df\<lparr>columns := setitem (columns df) c series\<rparr>"

subsection \<open>Dates and years\<close>

text \<open>
  \<open>pd.to_datetime(series, errors='coerce')\<close>. How pandas reads one string, number or
  other object is not in the sources: it is the parameter \<open>parse\<close>, and \<open>None\<close> is its failure. With
  \<open>errors='coerce'\<close> a failure becomes \<open>NaT\<close> instead of an exception; a missing value
  becomes \<open>NaT\<close> and a timestamp stays. A datetime series is a list of
  \<open>timestamp option\<close>, \<open>None\<close> for \<open>NaT\<close>.
\<close>

type_synonym parser = "cell \<Rightarrow> timestamp option"

fun to_datetime_cell :: "parser \<Rightarrow> cell \<Rightarrow> timestamp option" where
  "to_datetime_cell parse (Timestamp t) = Some t"
| "to_datetime_cell parse NaT = None"
| "to_datetime_cell parse NaN = None"
| "to_datetime_cell parse (Str s) = parse (Str s)"
| "to_datetime_cell parse (Number n) = parse (Number n)"
| "to_datetime_cell parse (Obj j) = parse (Obj j)"

definition to_datetime :: "parser \<Rightarrow> cell list \<Rightarrow> timestamp option list" where
  "to_datetime parse series = map (to_datetime_cell parse) series"

text \<open>\<open>series.dt.year\<close>: the year of each timestamp, \<open>NaN\<close> (here \<open>None\<close>) for \<open>NaT\<close>.\<close>

definition dt_year :: "timestamp option list \<Rightarrow> int option list" where
  "dt_year dates = map (map_option year) dates"

text \<open>\<open>series.dropna()\<close> on a typed series.\<close>

fun dropna :: "'a option list \<Rightarrow> 'a list" where
  "dropna [] = []"
| "dropna (None # xs) = dropna xs"
| "dropna (Some x # xs) = x # dropna xs"

text \<open>The cells a datetime series and a year series are stored as.\<close>

definition datetime_cell :: "timestamp option \<Rightarrow> cell" where
  "datetime_cell d = (case d of None \<Rightarrow> NaT | Some t \<Rightarrow> Timestamp t)"

definition number_cell :: "int option \<Rightarrow> cell" where
  "number_cell y = (case y of None \<Rightarrow> NaN | Some n \<Rightarrow> Number n)"

definition isna :: "cell \<Rightarrow> bool" where
  "isna c = (c = NaN \<or> c = NaT)"

subsection \<open>Counting\<close>

text \<open>
  \<open>series.value_counts()\<close> counts each distinct value of a series and orders the counts
  from the highest to the lowest. \<open>counts\<close> is its first pass: the distinct values in the
  order they are first met, each with the number of its occurrences.
\<close>

definition counts :: "'a list \<Rightarrow> ('a \<times> nat) list" where
  "counts xs = map (\<lambda>x. (x, count_list xs x)) (first_seen [] xs)"

text \<open>
  Modelled from the spec: \<open>value_counts\<close> is a function of pandas, which is not in the
  sources, and where it puts equal counts is the specification's `ties break by
  first-encountered order in the source table': the sort by falling count is a stable
  sort of the first pass.
\<close>

definition value_counts :: "'a list \<Rightarrow> ('a \<times> nat) list" where
  "value_counts xs = sort_key (\<lambda>(x, n). - int n) (counts xs)"

text \<open>\<open>sort_index()\<close> of counts indexed by year, \<open>head(n)\<close>, and
  \<open>groupby(column).size()\<close>: the size of each group, the groups in rising order of their
  key, rows without a key in no group.\<close>

definition sort_index :: "(int \<times> nat) list \<Rightarrow> (int \<times> nat) list" where
  "sort_index s = sort_key fst s"

definition head :: "nat \<Rightarrow> 'a list \<Rightarrow> 'a list" where
  "head n xs = take n xs"

definition groupby_size :: "int option list \<Rightarrow> (int \<times> nat) list" where
  "groupby_size ks = map (\<lambda>k. (k, count_list (dropna ks) k)) (sort (remdups (dropna ks)))"

subsection \<open>The script\<close>

text \<open>
  Lines 130 to 132. The source reads \<open>albums_df['publicationDate']\<close> and
  \<open>albums_df['release_year']\<close> back from the frame right after assigning them; here the
  series that was assigned is used, which \<open>df_getitem_setitem\<close> below shows to be what
  the read gives. \<open>astype(int)\<close> turns the years, whole numbers held as floats, into
  integers: they are integers here from the start. The result is the frame as the three
  lines leave it, the year series, and \<open>release_years\<close>.
\<close>

definition parse_dates :: "parser \<Rightarrow> dataframe \<Rightarrow> py_error + dataframe \<times> int option list \<times> int list" where
  "parse_dates parse albums_df =
     (case df_getitem albums_df ''publicationDate'' of
        Inl e \<Rightarrow> Inl e
      | Inr series \<Rightarrow>
          (let dates = to_datetime parse series;
               df1 = df_setitem albums_df ''publicationDate'' (map datetime_cell dates);
               years = dt_year dates;
               df2 = df_setitem df1 ''release_year'' (map number_cell years);
               release_years = dropna years
           in Inr (df2, years, release_years)))"

text \<open>Line 136: \<open>release_years.value_counts().sort_index()\<close>, the counts by year.\<close>

definition counts_by_year :: "int list \<Rightarrow> (int \<times> nat) list" where
  "counts_by_year release_years = sort_index (value_counts release_years)"

text \<open>Line 145: \<open>albums_df['performerLabel'].value_counts()\<close>, which leaves missing labels
  out, and \<open>.head(10)\<close> of lines 147 and 156.\<close>

definition performer_album_counts :: "dataframe \<Rightarrow> py_error + (cell \<times> nat) list" where
  "performer_album_counts albums_df =
     (case df_getitem albums_df ''performerLabel'' of
        Inl e \<Rightarrow> Inl e
      | Inr series \<Rightarrow> Inr (value_counts (filter (\<lambda>c. \<not> isna c) series)))"

definition top10 :: "(cell \<times> nat) list \<Rightarrow> (cell \<times> nat) list" where
  "top10 pac = head 10 pac"

text \<open>Line 175: \<open>sns.scatterplot(data=albums_df, x='performerLabel', y='release_year', ...)\<close>
  is given the two columns of the frame, one point per row.\<close>

definition scatter_data :: "dataframe \<Rightarrow> py_error + (cell \<times> cell) list" where
  "scatter_data albums_df =
     (case df_getitem albums_df ''performerLabel'' of
        Inl e \<Rightarrow> Inl e
      | Inr xs \<Rightarrow>
          (case df_getitem albums_df ''release_year'' of
             Inl e \<Rightarrow> Inl e
           | Inr ys \<Rightarrow> Inr (zip xs ys)))"

text \<open>
  A figure is the data a plotting call is given; what the plotting library draws with it
  is outside the program. The script from line 130 on turns the fetched albums table into
  the frame it leaves behind and the five figures it shows, in order.
\<close>

datatype figure =
    BarYears "(int \<times> nat) list"
  | BarPerformers "(cell \<times> nat) list"
  | PiePerformers "(cell \<times> nat) list"
  | LineYears "(int \<times> nat) list"
  | ScatterPlot "(cell \<times> cell) list"

record session =
  albums_df :: dataframe
  shown :: "figure list"

definition report :: "parser \<Rightarrow> dataframe \<Rightarrow> py_error + session" where
  "report parse fetched =
     (case parse_dates parse fetched of
        Inl e \<Rightarrow> Inl e
      | Inr (df, years, release_years) \<Rightarrow>
          (case performer_album_counts df of
             Inl e \<Rightarrow> Inl e
           | Inr pac \<Rightarrow>
               (case scatter_data df of
                  Inl e \<Rightarrow> Inl e
                | Inr points \<Rightarrow>
                    Inr \<lparr>albums_df = df,
                         shown = [BarYears (counts_by_year release_years),
                                  BarPerformers (top10 pac),
                                  PiePerformers (top10 pac),
                                  LineYears (groupby_size years),
                                  ScatterPlot points]\<rparr>)))"

subsection \<open>Sample inputs\<close>

text \<open>
  A parser to run the script on: it reads a timestamp as the endpoint prints it,
  \<open>YYYY-MM-DDThh:mm:ssZ\<close>, and nothing else. The theorems hold for every parser; this one
  serves to evaluate them.
\<close>

definition digit_of :: "char \<Rightarrow> nat option" where
  "digit_of c = map_of (zip ''0123456789'' [0, 1, 2, 3, 4, 5, 6, 7, 8, 9]) c"

definition number_of :: "string \<Rightarrow> nat option" where
  "number_of ds = map_option (foldl (\<lambda>a d. 10 * a + d) 0) (those (map digit_of ds))"

definition iso_parser :: parser where
  "iso_parser c =
     (case c of
        Str s \<Rightarrow>
          (if length s = 20 \<and> map (\<lambda>i. s ! i) [4, 7, 10, 13, 16, 19] = ''--T::Z'' then
             (case (number_of (take 4 s), number_of (take 2 (drop 5 s)), number_of (take 2 (drop 8 s)),
                    number_of (take 2 (drop 11 s)), number_of (take 2 (drop 14 s)),
                    number_of (take 2 (drop 17 s))) of
                (Some y, Some m, Some d, Some h, Some mi, Some sec) \<Rightarrow>
                  (if 1 \<le> m \<and> m \<le> 12 \<and> 1 \<le> d \<and> d \<le> 31 \<and> h < 24 \<and> mi < 60 \<and> sec < 60
                   then Some (Date (int y) m d h mi sec) else None)
              | _ \<Rightarrow> None)
           else None)
      | _ \<Rightarrow> None)"




definition null_bindings_endpoint :: endpoint where
  "null_bindings_endpoint =
     \<lparr>replies = (\<lambda>n. Inr (JObject [(''results'', JObject [(''bindings'', JNull)])])), requests = 0\<rparr>"

definition string_term_endpoint :: endpoint where
  "string_term_endpoint =
     \<lparr>replies = (\<lambda>n. Inr (JObject [(''results'', JObject [(''bindings'',
                    JArray [JObject [(''a'', JString ''x'')]])])])),
      requests = 0\<rparr>"

definition no_value_endpoint :: endpoint where
  "no_value_endpoint =
     \<lparr>replies = (\<lambda>n. Inr (JObject [(''results'', JObject [(''bindings'',
                    JArray [JObject [(''a'', JObject [(''type'', JString ''uri'')])]])])])),
      requests = 0\<rparr>"

text \<open>An albums table of fifteen performers with 1 to 15 albums each, 120 rows with only
  the performer column.\<close>

definition fifteen_performers :: dataframe where
  "fifteen_performers =
     DataFrame (concat (map (\<lambda>(p, n). replicate n [(''performerLabel'', p)])
       [(''P01'', 3), (''P02'', 15), (''P03'', 1), (''P04'', 8), (''P05'', 12),
        (''P06'', 2), (''P07'', 10), (''P08'', 5), (''P09'', 14), (''P10'', 7),
        (''P11'', 4), (''P12'', 13), (''P13'', 6), (''P14'', 11), (''P15'', 9)]))"

text \<open>Three albums published in 1965, 1965 and 1970; and three albums of which the second
  has the publication date \<open>unknown\<close>.\<close>

definition three_albums :: dataframe where
  "three_albums =
     DataFrame [[(''performerLabel'', ''A''), (''publicationDate'', ''1965-03-01T00:00:00Z'')],
                [(''performerLabel'', ''B''), (''publicationDate'', ''1965-11-20T00:00:00Z'')],
                [(''performerLabel'', ''A''), (''publicationDate'', ''1970-01-01T00:00:00Z'')]]"

definition albums_with_unknown :: dataframe where
  "albums_with_unknown =
     DataFrame [[(''performerLabel'', ''A''), (''publicationDate'', ''1965-03-01T00:00:00Z'')],
                [(''performerLabel'', ''B''), (''publicationDate'', ''unknown'')],
                [(''performerLabel'', ''A''), (''publicationDate'', ''1970-01-01T00:00:00Z'')]]"

text \<open>Eleven albums of eleven performers, all published on the same day.\<close>

definition eleven_albums :: dataframe where
  "eleven_albums =
     DataFrame (map (\<lambda>p. [(''performerLabel'', p), (''publicationDate'', ''1970-01-01T00:00:00Z'')])
       [''P01'', ''P02'', ''P03'', ''P04'', ''P05'', ''P06'', ''P07'', ''P08'', ''P09'', ''P10'', ''P11''])"

section \<open>Properties of the flattening and of the table\<close>

subsection \<open>Dictionaries\<close>

lemma setitem_fresh: "k \<notin> set (keys d) \<Longrightarrow> setitem d k v = d @ [(k, v)]"
  by (induction d) (auto simp: keys_def)

lemma map_of_setitem: "map_of (setitem d k v) = (map_of d)(k \<mapsto> v)"
  by (induction d) (auto simp: fun_eq_iff)

lemma keys_setitem: "keys (setitem d k v) = (if k \<in> set (keys d) then keys d else keys d @ [k])"
  by (induction d) (force simp: keys_def)+

lemma getitem_Inr_iff: "getitem d k = Inr v \<longleftrightarrow> map_of d k = Some v"
  by (simp add: getitem_def split: option.splits)

lemma getitem_Inl_iff: "getitem d k = Inl e \<longleftrightarrow> map_of d k = None \<and> e = KeyError k"
  by (auto simp: getitem_def split: option.splits)

lemma transform_keys_suffix:
  assumes "distinct (map fst (pre @ suf))" "list_all (\<lambda>(key, b). map_of b ''value'' \<noteq> None) suf"
  shows "transform_keys (pre @ suf) (map fst suf) (map (\<lambda>(key, b). (key, the (map_of b ''value''))) pre)
       = Inr (map (\<lambda>(key, b). (key, the (map_of b ''value''))) (pre @ suf))"
  using assms
proof (induction suf arbitrary: pre)
  case Nil
  then show ?case by simp
next
  case (Cons kb suf)
  obtain k b where kb: "kb = (k, b)" by (cases kb)
  from Cons.prems(2) kb obtain v where v: "map_of b ''value'' = Some v" by auto
  have look: "map_of (pre @ kb # suf) k = Some b"
    using kb by (subst map_of_eq_Some_iff[OF Cons.prems(1)]) simp
  have fresh: "k \<notin> set (keys (map (\<lambda>(key, b). (key, the (map_of b ''value''))) pre))"
    using Cons.prems(1) kb by (auto simp: keys_def image_iff)
  have step: "transform_keys ((pre @ [kb]) @ suf) (map fst suf)
                (map (\<lambda>(key, b). (key, the (map_of b ''value''))) (pre @ [kb]))
              = Inr (map (\<lambda>(key, b). (key, the (map_of b ''value''))) ((pre @ [kb]) @ suf))"
    using Cons.prems by (intro Cons.IH) simp_all
  show ?case
    using step look v kb by (simp add: getitem_def setitem_fresh[OF fresh])
qed

lemma transform_row_map:
  assumes "distinct (keys result)" "has_values result"
  shows "transform_row result = Inr (map (\<lambda>(key, b). (key, the (map_of b ''value''))) result)"
  using transform_keys_suffix[of "[]" result] assms
  by (simp add: transform_row_def keys_def has_values_def)

lemma transform_rows_Inr_iff:
  "transform_rows results acc = Inr out \<longleftrightarrow>
     (\<exists>flats. out = acc @ flats \<and> list_all2 (\<lambda>r f. transform_row r = Inr f) results flats)"
proof (induction results arbitrary: acc)
  case Nil
  then show ?case by auto
next
  case (Cons r results)
  show ?case
  proof (cases "transform_row r")
    case (Inl e)
    then show ?thesis by (auto simp: list_all2_Cons1)
  next
    case (Inr f)
    then show ?thesis by (auto simp: Cons.IH list_all2_Cons1)
  qed
qed


lemma getitem_keys: "k \<in> set (keys d) \<Longrightarrow> \<exists>v. getitem d k = Inr v"
  by (cases "map_of d k") (auto simp: getitem_def keys_def map_of_eq_None_iff)

lemma transform_keys_error:
  assumes "set ks \<subseteq> set (keys result)" "transform_keys result ks acc = Inl e"
  shows "e = KeyError ''value''"
  using assms
proof (induction ks arbitrary: acc)
  case Nil
  then show ?case by simp
next
  case (Cons k ks)
  from Cons.prems(1) obtain b where b: "getitem result k = Inr b"
    using getitem_keys[of k result] by auto
  show ?case
  proof (cases "getitem b ''value''")
    case (Inl e')
    with b Cons.prems(2) show ?thesis by (simp add: getitem_Inl_iff)
  next
    case (Inr v)
    with b Cons.prems show ?thesis by (auto intro: Cons.IH)
  qed
qed

lemma transform_row_error: "transform_row result = Inl e \<Longrightarrow> e = KeyError ''value''"
  unfolding transform_row_def by (rule transform_keys_error[of "keys result"]) simp_all

lemma transform_rows_error: "transform_rows results acc = Inl e \<Longrightarrow> e = KeyError ''value''"
proof (induction results arbitrary: acc)
  case Nil
  then show ?case by simp
next
  case (Cons r results)
  then show ?case
    by (cases "transform_row r") (auto dest: transform_row_error)
qed

lemma transform2dicts_Inr_iff:
  "transform2dicts results = Inr flats \<longleftrightarrow> list_all2 (\<lambda>r f. transform_row r = Inr f) results flats"
  by (simp add: transform2dicts_def transform_rows_Inr_iff)

lemma transform2dicts_length: "transform2dicts results = Inr flats \<Longrightarrow> length flats = length results"
  by (simp add: transform2dicts_Inr_iff list_all2_lengthD)

lemma set_first_seen: "set (first_seen seen xs) = set seen \<union> set xs"
  by (induction xs arbitrary: seen) auto

lemma distinct_first_seen: "distinct seen \<Longrightarrow> distinct (first_seen seen xs)"
  by (induction xs arbitrary: seen) auto

lemma keys_DataFrame: "keys (columns (DataFrame data)) = first_seen [] (concat (map keys data))"
  by (simp add: DataFrame_def keys_def comp_def)

lemma set_keys_DataFrame: "set (keys (columns (DataFrame data))) = (\<Union>row \<in> set data. set (keys row))"
  by (simp add: keys_DataFrame set_first_seen)

lemma distinct_keys_DataFrame: "distinct (keys (columns (DataFrame data)))"
  by (simp add: keys_DataFrame distinct_first_seen)

lemma map_of_map_key: "map_of (map (\<lambda>c. (c, f c)) cs) c = (if c \<in> set cs then Some (f c) else None)"
  by (induction cs) auto

lemma column_DataFrame:
  "map_of (columns (DataFrame data)) c =
     (if c \<in> (\<Union>row \<in> set data. set (keys row)) then Some (map (\<lambda>row. cell_of row c) data) else None)"
  by (simp add: DataFrame_def map_of_map_key set_first_seen)

lemma iloc_DataFrame:
  assumes "i < length data"
  shows "map_of (iloc (DataFrame data) i) c =
     (if c \<in> (\<Union>row \<in> set data. set (keys row)) then Some (cell_of (data ! i) c) else None)"
proof -
  have "iloc (DataFrame data) i = map (\<lambda>c. (c, cell_of (data ! i) c)) (first_seen [] (concat (map keys data)))"
    using assms by (simp add: iloc_def DataFrame_def comp_def)
  then show ?thesis by (simp add: map_of_map_key set_first_seen)
qed

lemma map_of_None_keys: "map_of d k = None \<longleftrightarrow> k \<notin> set (keys d)"
  by (simp add: keys_def map_of_eq_None_iff)

lemma flattening_keys:
  assumes "distinct (keys result)" "has_values result"
  shows "\<exists>flat. transform_row result = Inr flat \<and> keys flat = keys result"
proof -
  have "map fst (map (\<lambda>(key, b). (key, the (map_of b ''value''))) result) = map fst result"
    by (induction result) auto
  with transform_row_map[OF assms] show ?thesis by (simp add: keys_def)
qed

subsection \<open>Frames, series and counts\<close>

lemma df_getitem_setitem:
  "df_getitem (df_setitem df c series) c' = (if c' = c then Inr series else df_getitem df c')"
  by (simp add: df_getitem_def df_setitem_def getitem_def map_of_setitem)

lemma nrows_df_setitem: "nrows (df_setitem df c series) = nrows df"
  by (simp add: df_setitem_def)

lemma columns_df_setitem: "columns (df_setitem df c series) = setitem (columns df) c series"
  by (simp add: df_setitem_def)

lemma df_getitem_Inr_iff: "df_getitem df c = Inr series \<longleftrightarrow> map_of (columns df) c = Some series"
  by (simp add: df_getitem_def getitem_Inr_iff)

lemma dropna_append: "dropna (xs @ ys) = dropna xs @ dropna ys"
  by (induction xs rule: dropna.induct) auto

lemma set_dropna: "set (dropna xs) = {x. Some x \<in> set xs}"
  by (induction xs rule: dropna.induct) auto

lemma count_list_dropna: "count_list (dropna xs) y = count_list xs (Some y)"
  by (induction xs rule: dropna.induct) auto

lemma dropna_map: "dropna (map (map_option f) xs) = map f (dropna xs)"
  by (induction xs rule: dropna.induct) auto

lemma length_dropna: "length (dropna xs) = length (filter (\<lambda>x. x \<noteq> None) xs)"
  by (induction xs rule: dropna.induct) auto

lemma count_list_map_filter: "count_list (map f xs) y = length (filter (\<lambda>x. f x = y) xs)"
  by (induction xs) auto

lemma map_fst_counts: "map fst (counts xs) = first_seen [] xs"
  by (simp add: counts_def comp_def)

lemma distinct_counts: "distinct (map fst (counts xs))"
  by (simp add: map_fst_counts distinct_first_seen)

lemma counts_mem: "(x, n) \<in> set (counts xs) \<longleftrightarrow> x \<in> set xs \<and> n = count_list xs x"
  by (auto simp: counts_def set_first_seen)

lemma distinct_map_insort_key:
  "distinct (map g (insort_key f x xs)) \<longleftrightarrow> g x \<notin> g ` set xs \<and> distinct (map g xs)"
  by (induction xs) (auto simp: set_insort_key)

lemma distinct_map_sort_key: "distinct (map g (sort_key f xs)) = distinct (map g xs)"
  by (induction xs) (auto simp: distinct_map_insort_key)

lemma set_value_counts: "set (value_counts xs) = set (counts xs)"
  by (simp add: value_counts_def)

lemma length_value_counts: "length (value_counts xs) = length (first_seen [] xs)"
  by (simp add: value_counts_def counts_def)

lemma value_counts_mem: "(x, n) \<in> set (value_counts xs) \<longleftrightarrow> x \<in> set xs \<and> n = count_list xs x"
  by (simp add: set_value_counts counts_mem)

lemma distinct_value_counts: "distinct (map fst (value_counts xs))"
  by (simp add: value_counts_def distinct_map_sort_key distinct_counts)

lemma set_fst_value_counts: "fst ` set (value_counts xs) = set xs"
proof (intro set_eqI iffI)
  fix x assume "x \<in> fst ` set (value_counts xs)"
  then obtain n where "(x, n) \<in> set (value_counts xs)" by auto
  then show "x \<in> set xs" by (simp add: value_counts_mem)
next
  fix x assume "x \<in> set xs"
  then have "(x, count_list xs x) \<in> set (value_counts xs)" by (simp add: value_counts_mem)
  then show "x \<in> fst ` set (value_counts xs)" by (rule image_eqI[rotated]) simp
qed

lemma sorted_value_counts: "sorted_wrt (\<lambda>a b. snd b \<le> snd a) (value_counts xs)"
proof -
  have "sorted (map (\<lambda>(x, n). - int n) (value_counts xs))"
    unfolding value_counts_def by (rule sorted_sort_key)
  then have "sorted_wrt (\<lambda>a b. (case a of (x, n) \<Rightarrow> - int n) \<le> (case b of (x, n) \<Rightarrow> - int n))
               (value_counts xs)"
    by (simp add: sorted_map)
  then show ?thesis
    by (rule sorted_wrt_mono_rel[rotated]) (auto simp: case_prod_unfold)
qed

lemma value_counts_ties:
  "map fst (filter (\<lambda>(x, n). n = k) (value_counts xs))
     = filter (\<lambda>x. count_list xs x = k) (first_seen [] xs)"
proof -
  have "filter (\<lambda>(x, n). n = k) (value_counts xs)
          = filter (\<lambda>y. (case y of (x, n) \<Rightarrow> - int n) = - int k) (value_counts xs)"
    by (rule filter_cong) auto
  also have "\<dots> = filter (\<lambda>y. (case y of (x, n) \<Rightarrow> - int n) = - int k) (counts xs)"
    unfolding value_counts_def by (rule sort_key_stable)
  also have "\<dots> = filter (\<lambda>(x, n). n = k) (counts xs)"
    by (rule filter_cong) auto
  finally have "map fst (filter (\<lambda>(x, n). n = k) (value_counts xs))
                  = map fst (filter (\<lambda>(x, n). n = k) (counts xs))"
    by simp
  also have "\<dots> = filter (\<lambda>x. count_list xs x = k) (first_seen [] xs)"
    by (simp add: counts_def filter_map comp_def)
  finally show ?thesis .
qed

lemma sorted_wrt_take_drop:
  assumes "sorted_wrt P xs" "a \<in> set (take n xs)" "b \<in> set (drop n xs)"
  shows "P a b"
proof -
  have "sorted_wrt P (take n xs @ drop n xs)" using assms(1) by simp
  with assms(2,3) show ?thesis unfolding sorted_wrt_append by blast
qed

lemma set_minus_take: "set xs - set (take n xs) \<subseteq> set (drop n xs)"
proof -
  have "set xs = set (take n xs) \<union> set (drop n xs)"
    by (metis append_take_drop_id set_append)
  then show ?thesis by blast
qed

lemma sorted_wrt_strict:
  "sorted_wrt (\<lambda>a b. snd b \<le> snd a) xs \<Longrightarrow> distinct (map snd xs)
     \<Longrightarrow> sorted_wrt (\<lambda>a b. (snd b :: nat) < snd a) xs"
proof (induction xs)
  case Nil
  then show ?case by simp
next
  case (Cons x xs)
  have "snd y < snd x" if "y \<in> set xs" for y
  proof -
    have "snd y \<le> snd x" using Cons.prems(1) that by simp
    moreover have "snd x \<notin> snd ` set xs" using Cons.prems(2) by simp
    then have "snd y \<noteq> snd x" using that by (metis imageI)
    ultimately show ?thesis by simp
  qed
  with Cons show ?case by simp
qed

lemma sorted_counts_by_year: "sorted_wrt (<) (map fst (counts_by_year ys))"
proof -
  have "sorted (map fst (counts_by_year ys))"
    unfolding counts_by_year_def sort_index_def by (rule sorted_sort_key)
  moreover have "distinct (map fst (counts_by_year ys))"
    unfolding counts_by_year_def sort_index_def
    by (simp add: distinct_map_sort_key distinct_value_counts)
  ultimately show ?thesis by (simp add: strict_sorted_iff)
qed

lemma counts_by_year_mem: "(y, n) \<in> set (counts_by_year ys) \<longleftrightarrow> y \<in> set ys \<and> n = count_list ys y"
  by (simp add: counts_by_year_def sort_index_def value_counts_mem)

lemma fst_eq_of_keyed:
  "\<forall>(k, n) \<in> set xs. n = f k \<Longrightarrow> xs = map (\<lambda>k. (k, f k)) (map fst xs)"
  by (induction xs) auto

lemma fst_set_counts_by_year: "fst ` set (counts_by_year ys) = set ys"
proof (intro set_eqI iffI)
  fix y assume "y \<in> fst ` set (counts_by_year ys)"
  then obtain n where "(y, n) \<in> set (counts_by_year ys)" by auto
  then show "y \<in> set ys" by (simp add: counts_by_year_mem)
next
  fix y assume "y \<in> set ys"
  then have "(y, count_list ys y) \<in> set (counts_by_year ys)" by (simp add: counts_by_year_mem)
  then show "y \<in> fst ` set (counts_by_year ys)" by (rule image_eqI[rotated]) simp
qed

lemma count_list_pos: "x \<in> set xs \<Longrightarrow> 0 < count_list xs x"
  by (metis count_list_0_iff gr0I)

lemma groupby_size_eq: "groupby_size years = counts_by_year (dropna years)"
proof -
  let ?ys = "dropna years"
  have "sorted_wrt (<) (sort (remdups ?ys))"
    by (simp add: strict_sorted_iff)
  moreover have "sorted_wrt (<) (map fst (counts_by_year ?ys))" by (rule sorted_counts_by_year)
  moreover have "set (map fst (counts_by_year ?ys)) = set (sort (remdups ?ys))"
    by (simp add: fst_set_counts_by_year)
  ultimately have k: "map fst (counts_by_year ?ys) = sort (remdups ?ys)"
    by (rule strict_sorted_equal)
  have "\<forall>(k, n) \<in> set (counts_by_year ?ys). n = count_list ?ys k"
    by (auto simp: counts_by_year_mem)
  from fst_eq_of_keyed[OF this] show ?thesis
    by (simp add: groupby_size_def k)
qed

lemma parse_dates_run:
  assumes "df_getitem df ''publicationDate'' = Inr series"
  shows "parse_dates parse df =
     Inr (df_setitem (df_setitem df ''publicationDate'' (map datetime_cell (to_datetime parse series)))
            ''release_year'' (map number_cell (dt_year (to_datetime parse series))),
          dt_year (to_datetime parse series),
          map year (dropna (to_datetime parse series)))"
  using assms by (simp add: parse_dates_def Let_def dt_year_def dropna_map)

lemma dropna_without:
  assumes "i < length xs" "xs ! i = None"
  shows "dropna xs = dropna (take i xs @ drop (Suc i) xs)"
proof -
  have "xs = take i xs @ xs ! i # drop (Suc i) xs"
    using assms(1) by (rule id_take_nth_drop)
  then have "dropna xs = dropna (take i xs @ None # drop (Suc i) xs)"
    using assms(2) by simp
  then show ?thesis by (simp add: dropna_append)
qed

lemma length_dropna_le: "length (dropna xs) \<le> length xs"
  by (induction xs rule: dropna.induct) auto

lemma report_run:
  assumes "df_getitem fetched ''publicationDate'' = Inr series"
    and "df_getitem fetched ''performerLabel'' = Inr labels"
  shows "report parse fetched =
     Inr \<lparr>albums_df =
            df_setitem (df_setitem fetched ''publicationDate'' (map datetime_cell (to_datetime parse series)))
              ''release_year'' (map number_cell (dt_year (to_datetime parse series))),
          shown = [BarYears (counts_by_year (map year (dropna (to_datetime parse series)))),
                   BarPerformers (top10 (value_counts (filter (\<lambda>c. \<not> isna c) labels))),
                   PiePerformers (top10 (value_counts (filter (\<lambda>c. \<not> isna c) labels))),
                   LineYears (groupby_size (dt_year (to_datetime parse series))),
                   ScatterPlot (zip labels (map number_cell (dt_year (to_datetime parse series))))]\<rparr>"
  using assms
  by (simp add: report_def parse_dates_run performer_album_counts_def scatter_data_def
      df_getitem_setitem)

subsection \<open>The flattening on any answer\<close>


lemma subscript_Inr_object: "subscript j k = Inr v \<Longrightarrow> \<exists>d. j = JObject d"
  by (cases j) auto

lemma list_at_mem: "list_at xs i = Inr b \<Longrightarrow> b \<in> set xs"
  by (auto simp: list_at_def split: if_splits)


lemma list_item_mem: "list_item xs key = Inr b \<Longrightarrow> b \<in> set xs"
  by (cases key) (auto dest: list_at_mem)


lemma list_item_object: "list_item xs (JObject d) = Inl TypeError"
  by simp

lemma array_walk_None:
  "array_walk xs ks = None \<Longrightarrow> key \<in> set ks
     \<Longrightarrow> \<exists>b v. list_item xs key = Inr b \<and> subscript b ''value'' = Inr v"
  by (induction ks) (auto split: sum.splits)

lemma array_walk_None_iff: "array_walk xs xs = None \<longleftrightarrow> xs = []"
proof
  assume walk: "array_walk xs xs = None"
  show "xs = []"
  proof (rule ccontr)
    assume "xs \<noteq> []"
    then obtain key where key: "key \<in> set xs" by (cases xs) auto
    from array_walk_None[OF walk key] obtain b v where
      b: "list_item xs key = Inr b" and v: "subscript b ''value'' = Inr v" by blast
    from v obtain d where d: "b = JObject d" by (auto dest: subscript_Inr_object)
    have "b \<in> set xs" using b by (rule list_item_mem)
    from array_walk_None[OF walk this] show False by (simp add: d)
  qed
qed simp









subsection \<open>On an answer of the annotated type the two flattenings agree\<close>

lemma getitem_map:
  "getitem (map (\<lambda>(k, v). (k, f v)) d) key = map_sum id f (getitem d key)"
  by (induction d) (auto simp: getitem_def)

lemma setitem_map:
  "setitem (map (\<lambda>(k, v). (k, f v)) d) key (f v) = map (\<lambda>(k, v). (k, f v)) (setitem d key v)"
  by (induction d) auto

lemma keys_map: "keys (map (\<lambda>(k, v). (k, f v)) d) = keys d"
  unfolding keys_def by (induction d) auto

lemma subscript_json_of_flat:
  "getitem (json_of_flat b) k = map_sum id JString (getitem b k)"
  unfolding json_of_flat_def by (rule getitem_map)

lemma keys_json_of_flat: "keys (json_of_flat row) = keys row"
  unfolding json_of_flat_def by (rule keys_map)

lemma transform_object_typed:
  "transform_object (map (\<lambda>(key, b). (key, JObject (json_of_flat b))) result) ks (json_of_flat acc)
     = map_sum id json_of_flat (transform_keys result ks acc)"
proof (induction ks arbitrary: acc)
  case Nil
  then show ?case by simp
next
  case (Cons k ks)
  show ?case
  proof (cases "getitem result k")
    case (Inl e)
    then show ?thesis by (simp add: getitem_map)
  next
    case b: (Inr b)
    show ?thesis
    proof (cases "getitem b ''value''")
      case (Inl e)
      with b show ?thesis by (simp add: getitem_map subscript_json_of_flat)
    next
      case (Inr v)
      have "setitem (json_of_flat acc) k (JString v) = json_of_flat (setitem acc k v)"
        unfolding json_of_flat_def by (rule setitem_map)
      with b Inr Cons.IH[of "setitem acc k v"] show ?thesis
        by (simp add: getitem_map subscript_json_of_flat)
    qed
  qed
qed

lemma transform_result_typed:
  "transform_result (json_of_row result) = map_sum id json_of_flat (transform_row result)"
  using transform_object_typed[of result "keys result" "[]"]
  by (simp add: json_of_row_def transform_row_def keys_map json_of_flat_def)

lemma transform_results_typed:
  "transform_results (map json_of_row results) (map json_of_flat acc)
     = map_sum id (map json_of_flat) (transform_rows results acc)"
proof (induction results arbitrary: acc)
  case Nil
  then show ?case by simp
next
  case (Cons r results)
  show ?case
  proof (cases "transform_row r")
    case (Inl e)
    then show ?thesis by (simp add: transform_result_typed)
  next
    case (Inr f)
    with Cons.IH[of "acc @ [f]"] show ?thesis by (simp add: transform_result_typed)
  qed
qed

lemma transform2dicts_json_typed:
  "transform2dicts_json (JArray (map json_of_row results))
     = map_sum id (map json_of_flat) (transform2dicts results)"
  using transform_results_typed[of results "[]"]
  by (simp add: transform2dicts_json_def transform2dicts_def)

lemma cell_of_json_typed: "cell_of_json (json_of_flat row) c = cell_of row c"
proof -
  have "map_of (json_of_flat row) c = map_option JString (map_of row c)"
    unfolding json_of_flat_def by (induction row) auto
  then show ?thesis by (simp add: cell_of_json_def cell_of_def split: option.splits)
qed

lemma DataFrame_json_typed: "DataFrame_json (map json_of_flat flats) = DataFrame flats"
proof -
  show ?thesis
    by (simp add: DataFrame_json_def DataFrame_def cell_of_json_typed keys_json_of_flat comp_def)
qed

lemma execute_query_typed:
  assumes "replies ep (requests ep) = Inr doc"
    and "subscript doc ''results'' = Inr res"
    and "subscript res ''bindings'' = Inr (JArray (map json_of_row results))"
  shows "fst (execute_query ep) = map_sum id DataFrame (transform2dicts results)"
  using assms
  by (cases "transform2dicts results")
    (simp_all add: execute_query_def load_def query_convert_def transform2dicts_json_typed
      DataFrame_json_typed)

subsection \<open>Malformed answers, evaluated\<close>

text \<open>\<open>bindings\<close> that is \<open>null\<close> and a term that is a string are a \<open>TypeError\<close>; a term
  without \<open>value\<close> is a \<open>KeyError\<close>.\<close>

lemma execute_malformed_examples:
  "fst (execute_query null_bindings_endpoint) = Inl TypeError"
  "fst (execute_query string_term_endpoint) = Inl TypeError"
  "fst (execute_query no_value_endpoint) = Inl (KeyError ''value'')"
  by (simp_all add: execute_query_def load_def query_convert_def getitem_def keys_def
      transform2dicts_json_def null_bindings_endpoint_def string_term_endpoint_def
      no_value_endpoint_def)

subsection \<open>Flattening one row\<close>

text \<open>
  Claim C1. For a result row whose keys are distinct and whose terms all have a \<open>value\<close>
  field, the flattening returns a flat row with the keys of the row in the same order;
  each key is mapped to exactly the \<open>value\<close> field of its term; every entry of the flat
  row is such a \<open>value\<close> field; and the flat row is the same for any other row that has
  the same keys and \<open>value\<close> fields, whatever its other fields are, so nothing but
  \<open>value\<close> reaches the output.
\<close>

theorem flattening_correct:
  assumes "distinct (keys result)" and "has_values result"
  shows "\<exists>flat. transform_row result = Inr flat \<and> keys flat = keys result \<and>
           (\<forall>key b. (key, b) \<in> set result \<longrightarrow> map_of flat key = map_of b ''value'') \<and>
           (\<forall>key v. (key, v) \<in> set flat \<longrightarrow>
              (\<exists>b. (key, b) \<in> set result \<and> map_of b ''value'' = Some v)) \<and>
           (\<forall>result'. map (\<lambda>(key, b). (key, map_of b ''value'')) result'
                        = map (\<lambda>(key, b). (key, map_of b ''value'')) result
                      \<longrightarrow> transform_row result' = Inr flat)"
proof -
  let ?f = "\<lambda>(key, b). (key, the (map_of b ''value''))"
  let ?g = "\<lambda>(key, b). (key, map_of b ''value'')"
  have f_g: "map ?f xs = map (\<lambda>(key, v). (key, the v)) (map ?g xs)" for xs :: raw_row
    by (induction xs) auto
  have fst_g: "map fst (map ?g xs) = keys xs" for xs :: raw_row
    unfolding keys_def by (induction xs) auto
  have run: "transform_row result = Inr (map ?f result)"
    using assms by (rule transform_row_map)
  have kk: "map fst (map ?f result) = map fst result"
    by (induction result) auto
  have k: "keys (map ?f result) = keys result"
    unfolding keys_def by (rule kk)
  have dist: "distinct (map fst (map ?f result))"
    using assms(1) unfolding keys_def kk .
  have some: "map_of b ''value'' \<noteq> None" if "(key, b) \<in> set result" for key b
    using assms(2) that by (auto simp: has_values_def list_all_iff)
  have fwd: "map_of (map ?f result) key = map_of b ''value''" if "(key, b) \<in> set result" for key b
  proof -
    have "(key, the (map_of b ''value'')) \<in> set (map ?f result)" using that by force
    then have "map_of (map ?f result) key = Some (the (map_of b ''value''))"
      using dist by simp
    with some[OF that] show ?thesis by auto
  qed
  have bwd: "\<exists>b. (key, b) \<in> set result \<and> map_of b ''value'' = Some v"
    if "(key, v) \<in> set (map ?f result)" for key v
    using that some by auto
  have indep: "transform_row result' = Inr (map ?f result)" if eq: "map ?g result' = map ?g result" for result'
  proof -
    have keq: "keys result' = keys result" using fst_g[of result'] fst_g[of result] eq by simp
    have hv: "has_values result'"
      unfolding has_values_def list_all_iff
    proof
      fix x assume x: "x \<in> set result'"
      have "?g x \<in> set (map ?g result')" using x by simp
      then have "?g x \<in> set (map ?g result)" using eq by simp
      then obtain y where y: "y \<in> set result" "?g x = ?g y" by auto
      have "map_of (snd y) ''value'' \<noteq> None" using some[of "fst y" "snd y"] y(1) by simp
      with y(2) show "case x of (key, b) \<Rightarrow> map_of b ''value'' \<noteq> None"
        by (simp add: case_prod_unfold)
    qed
    have "map ?f result' = map ?f result"
      using eq f_g[of result'] f_g[of result] by simp
    with transform_row_map[of result'] keq assms(1) hv show ?thesis by simp
  qed
  show ?thesis
  proof (rule exI[of _ "map ?f result"], intro conjI allI impI)
    show "transform_row result = Inr (map ?f result)" by (rule run)
    show "keys (map ?f result) = keys result" by (rule k)
  qed (use fwd bwd indep in \<open>simp_all only:\<close>)
qed

text \<open>The row \<open>{a: {type: literal, value: x}, b: {value: y, xml:lang: en}}\<close> flattens to
  \<open>{a: x, b: y}\<close>.\<close>

theorem flattening_correct_witness:
  "distinct (keys [(''a'', [(''type'', ''literal''), (''value'', ''x'')]),
                   (''b'', [(''value'', ''y''), (''xml:lang'', ''en'')])]) \<and>
   has_values [(''a'', [(''type'', ''literal''), (''value'', ''x'')]),
               (''b'', [(''value'', ''y''), (''xml:lang'', ''en'')])] \<and>
   transform_row [(''a'', [(''type'', ''literal''), (''value'', ''x'')]),
                  (''b'', [(''value'', ''y''), (''xml:lang'', ''en'')])]
     = Inr [(''a'', ''x''), (''b'', ''y'')]"
proof -
  let ?R = "[(''a'', [(''type'', ''literal''), (''value'', ''x'')]),
             (''b'', [(''value'', ''y''), (''xml:lang'', ''en'')])] :: raw_row"
  have d: "distinct (keys ?R)" by (simp add: keys_def)
  have h: "has_values ?R" by (simp add: has_values_def)
  from flattening_correct[OF d h] obtain flat where
    run: "transform_row ?R = Inr flat" and k: "keys flat = keys ?R" and
    v: "\<forall>key b. (key, b) \<in> set ?R \<longrightarrow> map_of flat key = map_of b ''value''"
    by blast
  from k obtain v1 v2 where flat: "flat = [(''a'', v1), (''b'', v2)]"
    by (auto simp: keys_def map_eq_Cons_conv)
  from v have "map_of flat ''a'' = Some ''x''" "map_of flat ''b'' = Some ''y''" by simp_all
  with flat have "flat = [(''a'', ''x''), (''b'', ''y'')]" by simp
  with run d h show ?thesis by simp
qed

subsection \<open>All rows, in order\<close>

text \<open>
  Claim C4. For a list of result rows (distinct keys, every term with a \<open>value\<close> field),
  empty or not, the flattening returns one flat row per result row: the lists have the
  same length, the \<open>i\<close>-th flat row is the flattening of the \<open>i\<close>-th result row, the table
  built from them has that many rows, and row \<open>i\<close> of the table holds the cells of the
  \<open>i\<close>-th flat row.
\<close>

theorem row_count_and_order:
  assumes "\<forall>result \<in> set results. distinct (keys result) \<and> has_values result"
  shows "\<exists>flats. transform2dicts results = Inr flats \<and> length flats = length results \<and>
           (\<forall>i < length results. transform_row (results ! i) = Inr (flats ! i)) \<and>
           nrows (DataFrame flats) = length results \<and>
           (\<forall>i < length results. \<forall>c \<in> set (keys (columns (DataFrame flats))).
              map_of (iloc (DataFrame flats) i) c = Some (cell_of (flats ! i) c))"
proof -
  let ?f = "\<lambda>(key, b). (key, the (map_of b ''value''))"
  let ?flats = "map (map ?f) results"
  have each: "list_all2 (\<lambda>r f. transform_row r = Inr f) results ?flats"
    using assms by (simp add: list_all2_conv_all_nth transform_row_map)
  then have run: "transform2dicts results = Inr ?flats"
    by (simp add: transform2dicts_Inr_iff)
  have rows: "\<forall>i < length results. transform_row (results ! i) = Inr (?flats ! i)"
    using each by (simp add: list_all2_conv_all_nth)
  have cells: "map_of (iloc (DataFrame ?flats) i) c = Some (cell_of (?flats ! i) c)"
    if "i < length results" "c \<in> set (keys (columns (DataFrame ?flats)))" for i c
  proof -
    have "i < length ?flats" using that(1) by simp
    from iloc_DataFrame[OF this, of c] that(2) show ?thesis
      by (simp only: set_keys_DataFrame if_True)
  qed
  show ?thesis
  proof (rule exI[of _ ?flats], intro conjI)
    show "transform2dicts results = Inr ?flats" by (rule run)
    show "length ?flats = length results" by simp
    show "\<forall>i < length results. transform_row (results ! i) = Inr (?flats ! i)" by (rule rows)
    show "nrows (DataFrame ?flats) = length results" by (simp add: DataFrame_def)
    show "\<forall>i < length results. \<forall>c \<in> set (keys (columns (DataFrame ?flats))).
              map_of (iloc (DataFrame ?flats) i) c = Some (cell_of (?flats ! i) c)"
      using cells by blast
  qed
qed
text \<open>Two rows in, the same two rows out, in the same order.\<close>

theorem row_count_and_order_witness:
  "(\<exists>flats. transform2dicts [[(''a'', [(''value'', ''x'')])], [(''a'', [(''value'', ''y'')])]] = Inr flats \<and>
      length flats = 2 \<and>
      transform_row [(''a'', [(''value'', ''x'')])] = Inr (flats ! 0) \<and>
      transform_row [(''a'', [(''value'', ''y'')])] = Inr (flats ! 1) \<and>
      nrows (DataFrame flats) = 2 \<and>
      map_of (iloc (DataFrame flats) 1) ''a'' = Some (cell_of (flats ! 1) ''a''))"
proof -
  let ?results = "[[(''a'', [(''value'', ''x'')])], [(''a'', [(''value'', ''y'')])]] :: raw_row list"
  have wf: "\<forall>result \<in> set ?results. distinct (keys result) \<and> has_values result"
    by (simp add: keys_def has_values_def)
  from row_count_and_order[OF wf] obtain flats where
    run: "transform2dicts ?results = Inr flats" and len: "length flats = length ?results" and
    rows: "\<forall>i < length ?results. transform_row (?results ! i) = Inr (flats ! i)" and
    n: "nrows (DataFrame flats) = length ?results" and
    cells: "\<forall>i < length ?results. \<forall>c \<in> set (keys (columns (DataFrame flats))).
              map_of (iloc (DataFrame flats) i) c = Some (cell_of (flats ! i) c)"
    by blast
  have r0: "transform_row (?results ! 0) = Inr (flats ! 0)"
    using rows[rule_format, of 0] by simp
  have r1: "transform_row (?results ! 1) = Inr (flats ! 1)"
    using rows[rule_format, of 1] by simp
  from len obtain f0 f1 where fl: "flats = [f0, f1]"
    by (auto simp: length_Suc_conv numeral_2_eq_2)
  from r1 fl have "f1 = [(''a'', ''y'')]"
    by (simp add: transform_row_def keys_def getitem_def)
  then have "''a'' \<in> (\<Union>row \<in> set flats. set (keys row))"
    using fl by (simp add: keys_def)
  then have "''a'' \<in> set (keys (columns (DataFrame flats)))"
    by (simp only: set_keys_DataFrame)
  with cells have "map_of (iloc (DataFrame flats) 1) ''a'' = Some (cell_of (flats ! 1) ''a'')"
    by simp
  with run len r0 r1 n show ?thesis by simp
qed

subsection \<open>Sparse rows\<close>

text \<open>
  Claim C3. When the first row binds exactly the variables \<open>a\<close> and \<open>b\<close> and the second
  exactly \<open>a\<close>, the two rows flatten, the table's column labels are \<open>{a, b}\<close>, the second
  flat row has an entry for \<open>a\<close> and none for \<open>b\<close>, and the table's cell for \<open>b\<close> in the
  second row is the missing value \<open>NaN\<close>, which is not the empty string.
\<close>

theorem sparse_rows:
  assumes "a \<noteq> b"
    and "distinct (keys row1)" "has_values row1" "set (keys row1) = {a, b}"
    and "distinct (keys row2)" "has_values row2" "set (keys row2) = {a}"
  shows "\<exists>flat1 flat2. transform2dicts [row1, row2] = Inr [flat1, flat2] \<and>
           set (keys (columns (DataFrame [flat1, flat2]))) = {a, b} \<and>
           map_of flat2 a \<noteq> None \<and> map_of flat2 b = None \<and>
           map_of (iloc (DataFrame [flat1, flat2]) 1) b = Some NaN \<and> NaN \<noteq> Str []"
proof -
  from flattening_keys[OF assms(2,3)] obtain flat1 where
    f1: "transform_row row1 = Inr flat1" "keys flat1 = keys row1" by blast
  from flattening_keys[OF assms(5,6)] obtain flat2 where
    f2: "transform_row row2 = Inr flat2" "keys flat2 = keys row2" by blast
  have run: "transform2dicts [row1, row2] = Inr [flat1, flat2]"
    using f1(1) f2(1) by (simp add: transform2dicts_Inr_iff)
  have cols: "set (keys (columns (DataFrame [flat1, flat2]))) = {a, b}"
    using f1(2) f2(2) assms(4,7) by (auto simp: set_keys_DataFrame)
  have a_in: "map_of flat2 a \<noteq> None"
    using f2(2) assms(7) by (simp add: map_of_None_keys)
  have b_out: "map_of flat2 b = None"
    using f2(2) assms(1,7) by (simp add: map_of_None_keys)
  have "map_of (iloc (DataFrame [flat1, flat2]) 1) b = Some (cell_of ([flat1, flat2] ! 1) b)"
    using iloc_DataFrame[of 1 "[flat1, flat2]" b] f1(2) assms(4) by simp
  then have cell: "map_of (iloc (DataFrame [flat1, flat2]) 1) b = Some NaN"
    using b_out by (simp add: cell_of_def)
  show ?thesis using run cols a_in b_out cell by blast
qed

text \<open>The rows \<open>{a: x, b: y}\<close> and \<open>{a: z}\<close>.\<close>

theorem sparse_rows_witness:
  "''a'' \<noteq> ''b'' \<and>
   (\<exists>flat1 flat2.
      transform2dicts [[(''a'', [(''value'', ''x'')]), (''b'', [(''value'', ''y'')])],
                       [(''a'', [(''value'', ''z'')])]] = Inr [flat1, flat2] \<and>
      set (keys (columns (DataFrame [flat1, flat2]))) = {''a'', ''b''} \<and>
      map_of flat2 ''a'' \<noteq> None \<and> map_of flat2 ''b'' = None \<and>
      map_of (iloc (DataFrame [flat1, flat2]) 1) ''b'' = Some NaN \<and> NaN \<noteq> Str [])"
  using sparse_rows[of "''a''" "''b''" "[(''a'', [(''value'', ''x'')]), (''b'', [(''value'', ''y'')])]"
      "[(''a'', [(''value'', ''z'')])]"]
  by (simp add: keys_def has_values_def insert_commute)

subsection \<open>No rows at all\<close>

text \<open>
  Claim C10. Flattening the empty list of result rows gives the empty list, and when the
  endpoint's answer has \<open>results.bindings = []\<close>, \<open>execute_query\<close> succeeds with the
  empty frame: no rows and no columns.
\<close>

theorem empty_bindings:
  assumes "replies ep (requests ep) = Inr doc"
    and "subscript doc ''results'' = Inr res"
    and "subscript res ''bindings'' = Inr (JArray [])"
  shows "transform2dicts [] = Inr [] \<and>
         fst (execute_query ep) = Inr \<lparr>nrows = 0, columns = []\<rparr>"
  using assms
  by (simp add: transform2dicts_def execute_query_def load_def query_convert_def
      transform2dicts_json_def DataFrame_json_def)

text \<open>An endpoint that answers \<open>{head: {}, results: {bindings: []}}\<close>.\<close>

theorem empty_bindings_witness:
  "fst (execute_query
     \<lparr>replies = (\<lambda>n. Inr (JObject [(''head'', JObject []),
                                    (''results'', JObject [(''bindings'', JArray [])])])),
      requests = 0\<rparr>)
     = Inr \<lparr>nrows = 0, columns = []\<rparr>"
  using empty_bindings[of
      "\<lparr>replies = (\<lambda>n. Inr (JObject [(''head'', JObject []),
                                     (''results'', JObject [(''bindings'', JArray [])])])),
       requests = 0\<rparr>"
      "JObject [(''head'', JObject []), (''results'', JObject [(''bindings'', JArray [])])]"
      "JObject [(''bindings'', JArray [])]"]
  by (simp add: getitem_def)

subsection \<open>Failures of \<open>execute_query\<close>\<close>



subsection \<open>The ten performers with the most albums\<close>

text \<open>
  Claim C5. For an albums table with a performer column, the counts by performer have one
  entry per performer label of the table (a missing label is not a performer), each with
  the number of rows of that label, in falling order of count; performers with equal
  counts stand in the order in which they are first met in the table. The top-10 view is
  the first ten entries: it has ten entries when there are that many performers, and no
  performer left out has more albums than one kept. In particular, with fifteen
  performers whose counts are all different, the view has exactly ten entries, in
  strictly falling order, each with strictly more albums than every performer left out.
\<close>

theorem top10_performers:
  assumes "df_getitem df ''performerLabel'' = Inr series"
  shows "\<exists>pac. performer_album_counts df = Inr pac \<and>
           distinct (map fst pac) \<and>
           fst ` set pac = {c \<in> set series. \<not> isna c} \<and>
           (\<forall>(p, n) \<in> set pac. n = count_list series p) \<and>
           sorted_wrt (\<lambda>a b. snd b \<le> snd a) pac \<and>
           (\<forall>k. map fst (filter (\<lambda>(p, n). n = k) pac)
                  = filter (\<lambda>p. count_list series p = k)
                      (first_seen [] (filter (\<lambda>c. \<not> isna c) series))) \<and>
           top10 pac = take 10 pac \<and>
           length (top10 pac) = min 10 (length pac) \<and>
           (\<forall>a \<in> set (top10 pac). \<forall>b \<in> set pac - set (top10 pac). snd b \<le> snd a) \<and>
           (length pac = 15 \<and> distinct (map snd pac) \<longrightarrow>
              length (top10 pac) = 10 \<and>
              sorted_wrt (\<lambda>a b. snd b < snd a) (top10 pac) \<and>
              (\<forall>a \<in> set (top10 pac). \<forall>b \<in> set pac - set (top10 pac). snd b < snd a))"
proof -
  let ?labels = "filter (\<lambda>c. \<not> isna c) series"
  let ?pac = "value_counts ?labels"
  have cnt: "count_list ?labels p = count_list series p" if "\<not> isna p" for p
    using that by (induction series) auto
  have run: "performer_album_counts df = Inr ?pac"
    using assms by (simp add: performer_album_counts_def)
  have dist: "distinct (map fst ?pac)" by (rule distinct_value_counts)
  have dom: "fst ` set ?pac = {c \<in> set series. \<not> isna c}"
    by (simp add: set_fst_value_counts)
  have num: "\<forall>(p, n) \<in> set ?pac. n = count_list series p"
    by (auto simp: value_counts_mem cnt)
  have desc: "sorted_wrt (\<lambda>a b. snd b \<le> snd a) ?pac" by (rule sorted_value_counts)
  have ties: "map fst (filter (\<lambda>(p, n). n = k) ?pac)
                = filter (\<lambda>p. count_list series p = k) (first_seen [] ?labels)" for k
  proof -
    have "filter (\<lambda>p. count_list ?labels p = k) (first_seen [] ?labels)
            = filter (\<lambda>p. count_list series p = k) (first_seen [] ?labels)"
      by (rule filter_cong) (auto simp: set_first_seen cnt)
    then show ?thesis by (simp only: value_counts_ties)
  qed
  have cut: "\<forall>a \<in> set (top10 ?pac). \<forall>b \<in> set ?pac - set (top10 ?pac). snd b \<le> snd a"
    using sorted_wrt_take_drop[OF desc] set_minus_take[of ?pac 10]
    unfolding top10_def head_def by blast
  have strict: "length (top10 ?pac) = 10 \<and>
                sorted_wrt (\<lambda>a b. snd b < snd a) (top10 ?pac) \<and>
                (\<forall>a \<in> set (top10 ?pac). \<forall>b \<in> set ?pac - set (top10 ?pac). snd b < snd a)"
    if len: "length ?pac = 15" and d: "distinct (map snd ?pac)"
  proof -
    have s: "sorted_wrt (\<lambda>a b. snd b < snd a) ?pac"
      using desc d by (rule sorted_wrt_strict)
    have "sorted_wrt (\<lambda>a b. snd b < snd a) (take 10 ?pac)"
      using s by (rule sorted_wrt_take)
    moreover have "\<forall>a \<in> set (take 10 ?pac). \<forall>b \<in> set ?pac - set (take 10 ?pac). snd b < snd a"
      using sorted_wrt_take_drop[OF s] set_minus_take[of ?pac 10] by blast
    ultimately show ?thesis using len by (simp add: top10_def head_def)
  qed
  show ?thesis
  proof (rule exI[of _ ?pac], intro conjI allI)
    show "performer_album_counts df = Inr ?pac" by (rule run)
    show "top10 ?pac = take 10 ?pac" by (simp add: top10_def head_def)
    show "length (top10 ?pac) = min 10 (length ?pac)" by (simp add: top10_def head_def min.commute)
    show "length ?pac = 15 \<and> distinct (map snd ?pac) \<longrightarrow>
              length (top10 ?pac) = 10 \<and>
              sorted_wrt (\<lambda>a b. snd b < snd a) (top10 ?pac) \<and>
              (\<forall>a \<in> set (top10 ?pac). \<forall>b \<in> set ?pac - set (top10 ?pac). snd b < snd a)"
      using strict by blast
  qed (rule dist dom num desc ties cut)+
qed

text \<open>The table of fifteen performers with 1 to 15 albums: the view keeps the ten with
  15 down to 6 albums.\<close>

theorem top10_performers_witness:
  "performer_album_counts fifteen_performers = Inr
     [(Str ''P02'', 15), (Str ''P09'', 14), (Str ''P12'', 13), (Str ''P05'', 12), (Str ''P14'', 11),
      (Str ''P07'', 10), (Str ''P15'', 9), (Str ''P04'', 8), (Str ''P10'', 7), (Str ''P13'', 6),
      (Str ''P08'', 5), (Str ''P11'', 4), (Str ''P01'', 3), (Str ''P06'', 2), (Str ''P03'', 1)] \<and>
   length (top10
     [(Str ''P02'', 15), (Str ''P09'', 14), (Str ''P12'', 13), (Str ''P05'', 12), (Str ''P14'', 11),
      (Str ''P07'', 10), (Str ''P15'', 9), (Str ''P04'', 8), (Str ''P10'', 7), (Str ''P13'', 6),
      (Str ''P08'', 5), (Str ''P11'', 4), (Str ''P01'', 3), (Str ''P06'', 2), (Str ''P03'', 1 :: nat)]) = 10 \<and>
   sorted_wrt (\<lambda>a b. snd b < snd a) (top10
     [(Str ''P02'', 15), (Str ''P09'', 14), (Str ''P12'', 13), (Str ''P05'', 12), (Str ''P14'', 11),
      (Str ''P07'', 10), (Str ''P15'', 9), (Str ''P04'', 8), (Str ''P10'', 7), (Str ''P13'', 6),
      (Str ''P08'', 5), (Str ''P11'', 4), (Str ''P01'', 3), (Str ''P06'', 2), (Str ''P03'', 1 :: nat)])"
proof -
  let ?L = "[(Str ''P02'', 15), (Str ''P09'', 14), (Str ''P12'', 13), (Str ''P05'', 12), (Str ''P14'', 11),
      (Str ''P07'', 10), (Str ''P15'', 9), (Str ''P04'', 8), (Str ''P10'', 7), (Str ''P13'', 6),
      (Str ''P08'', 5), (Str ''P11'', 4), (Str ''P01'', 3), (Str ''P06'', 2), (Str ''P03'', 1 :: nat)]"
  have run: "performer_album_counts fifteen_performers = Inr ?L"
    by code_simp
  then obtain series where col: "df_getitem fifteen_performers ''performerLabel'' = Inr series"
    by (auto simp: performer_album_counts_def split: sum.splits)
  from top10_performers[OF col] run have
    "length ?L = 15 \<and> distinct (map snd ?L) \<longrightarrow>
       length (top10 ?L) = 10 \<and> sorted_wrt (\<lambda>a b. snd b < snd a) (top10 ?L)"
    by auto
  moreover have "length ?L = 15 \<and> distinct (map snd ?L)" by simp
  ultimately show ?thesis using run by blast
qed

subsection \<open>Albums per year\<close>

text \<open>
  Claim C7. For an albums table with a publication-date column and any parser, lines 130
  to 132 succeed and \<open>release_years\<close> holds the parsed year of every row whose date
  parses, in table order. The counts by year are in strictly rising order of year; their
  years are exactly the years some row's date parses to; each count is the number of rows
  whose date parses to that year, and is positive; the line chart's
  \<open>groupby('release_year').size()\<close> is the same list. In particular, when the dates parse
  to the years 1965, 1965 and 1970, the counts by year are \<open>[(1965, 2), (1970, 1)]\<close>.
\<close>

theorem counts_by_year_grouping:
  assumes "df_getitem df ''publicationDate'' = Inr series"
  shows "\<exists>df' years release_years.
           parse_dates parse df = Inr (df', years, release_years) \<and>
           release_years = map year (dropna (to_datetime parse series)) \<and>
           sorted_wrt (<) (map fst (counts_by_year release_years)) \<and>
           fst ` set (counts_by_year release_years)
             = {y. \<exists>c \<in> set series. map_option year (to_datetime_cell parse c) = Some y} \<and>
           (\<forall>(y, n) \<in> set (counts_by_year release_years).
              n = length (filter (\<lambda>c. map_option year (to_datetime_cell parse c) = Some y) series) \<and>
              0 < n) \<and>
           groupby_size years = counts_by_year release_years \<and>
           (dt_year (to_datetime parse series) = [Some 1965, Some 1965, Some 1970] \<longrightarrow>
              counts_by_year release_years = [(1965, 2), (1970, 1)])"
proof -
  let ?g = "\<lambda>c. map_option year (to_datetime_cell parse c)"
  let ?years = "dt_year (to_datetime parse series)"
  let ?rys = "map year (dropna (to_datetime parse series))"
  have years: "?years = map ?g series"
    by (simp add: dt_year_def to_datetime_def)
  have rys: "?rys = dropna ?years"
    by (simp add: dt_year_def dropna_map)
  have cnt: "count_list ?rys y = length (filter (\<lambda>c. ?g c = Some y) series)" for y
    unfolding rys count_list_dropna years by (rule count_list_map_filter)
  have mem: "y \<in> set ?rys \<longleftrightarrow> (\<exists>c \<in> set series. ?g c = Some y)" for y
  proof -
    have "y \<in> set ?rys \<longleftrightarrow> Some y \<in> ?g ` set series"
      unfolding rys set_dropna years by simp
    also have "\<dots> \<longleftrightarrow> (\<exists>c \<in> set series. ?g c = Some y)"
      unfolding image_iff by (rule bex_cong[OF refl]) (rule eq_commute)
    finally show ?thesis .
  qed
  have dom: "fst ` set (counts_by_year ?rys) = {y. \<exists>c \<in> set series. ?g c = Some y}"
    unfolding fst_set_counts_by_year using mem by blast
  have num: "\<forall>(y, n) \<in> set (counts_by_year ?rys).
               n = length (filter (\<lambda>c. ?g c = Some y) series) \<and> 0 < n"
  proof (clarify, intro conjI)
    fix y n assume yn: "(y, n) \<in> set (counts_by_year ?rys)"
    then have n: "n = count_list ?rys y" and y: "y \<in> set ?rys"
      by (simp_all add: counts_by_year_mem)
    show "n = length (filter (\<lambda>c. ?g c = Some y) series)" using n cnt by simp
    show "0 < n" unfolding n using y by (rule count_list_pos)
  qed
  have ex: "counts_by_year ?rys = [(1965, 2), (1970, 1)]"
    if "?years = [Some 1965, Some 1965, Some 1970]"
    unfolding rys that
    by (simp add: counts_by_year_def sort_index_def value_counts_def counts_def)
  let ?df' = "df_setitem (df_setitem df ''publicationDate'' (map datetime_cell (to_datetime parse series)))
            ''release_year'' (map number_cell ?years)"
  show ?thesis
  proof (rule exI[of _ ?df'], rule exI[of _ ?years], rule exI[of _ ?rys], intro conjI)
    show "parse_dates parse df = Inr (?df', ?years, ?rys)"
      using assms by (rule parse_dates_run)
    show "groupby_size ?years = counts_by_year ?rys"
      unfolding rys by (rule groupby_size_eq)
    show "?years = [Some 1965, Some 1965, Some 1970] \<longrightarrow>
            counts_by_year ?rys = [(1965, 2), (1970, 1)]"
      using ex by blast
  qed (rule refl sorted_counts_by_year dom num)+
qed

text \<open>Three albums dated 1965-03-01, 1965-11-20 and 1970-01-01, read by \<open>iso_parser\<close>.\<close>

theorem counts_by_year_grouping_witness:
  "(\<exists>df' years. parse_dates iso_parser three_albums = Inr (df', years, [1965, 1965, 1970])) \<and>
   counts_by_year [1965, 1965, 1970] = [(1965, 2), (1970, 1)]"
proof -
  let ?series = "[Str ''1965-03-01T00:00:00Z'', Str ''1965-11-20T00:00:00Z'',
                  Str ''1970-01-01T00:00:00Z'']"
  have col: "df_getitem three_albums ''publicationDate'' = Inr ?series"
    by (simp add: three_albums_def DataFrame_def df_getitem_def getitem_def keys_def cell_of_def)
  have dates: "to_datetime iso_parser ?series
                 = [Some (Date 1965 3 1 0 0 0), Some (Date 1965 11 20 0 0 0), Some (Date 1970 1 1 0 0 0)]"
    by (simp add: to_datetime_def iso_parser_def number_of_def digit_of_def)
  from counts_by_year_grouping[OF col, of iso_parser] obtain df' years release_years where
    run: "parse_dates iso_parser three_albums = Inr (df', years, release_years)" and
    rys: "release_years = map year (dropna (to_datetime iso_parser ?series))" and
    ex: "dt_year (to_datetime iso_parser ?series) = [Some 1965, Some 1965, Some 1970] \<longrightarrow>
           counts_by_year release_years = [(1965, 2), (1970, 1)]"
    by blast
  have r: "release_years = [1965, 1965, 1970]"
    unfolding rys dates by simp
  have "dt_year (to_datetime iso_parser ?series) = [Some 1965, Some 1965, Some 1970]"
    unfolding dates by (simp add: dt_year_def)
  with ex r have "counts_by_year [1965, 1965, 1970] = [(1965, 2), (1970, 1)]" by simp
  with run r show ?thesis by blast
qed

subsection \<open>A date that does not parse\<close>

text \<open>
  Claim C6. Let row \<open>i\<close> of an albums table have a publication date that does not parse
  (by whatever parser). Then lines 130 to 132 raise nothing; the table keeps all its rows
  and every other column as it was; row \<open>i\<close> is still there, with \<open>NaT\<close> as its date and
  \<open>NaN\<close> as its release year; and \<open>release_years\<close>, from which the counts by year are
  taken, is what the table without row \<open>i\<close> would give, so it has fewer entries than the
  table has rows. The line chart's groups are the same counts.
\<close>

theorem unparseable_date_excluded:
  assumes "df_getitem df ''publicationDate'' = Inr series"
    and "i < length series"
    and "to_datetime_cell parse (series ! i) = None"
  shows "\<exists>df' years release_years.
           parse_dates parse df = Inr (df', years, release_years) \<and>
           nrows df' = nrows df \<and>
           (\<forall>c. c \<noteq> ''publicationDate'' \<and> c \<noteq> ''release_year'' \<longrightarrow>
                df_getitem df' c = df_getitem df c) \<and>
           (\<exists>dates. df_getitem df' ''publicationDate'' = Inr dates \<and>
                    length dates = length series \<and> dates ! i = NaT) \<and>
           (\<exists>ys. df_getitem df' ''release_year'' = Inr ys \<and>
                 length ys = length series \<and> ys ! i = NaN) \<and>
           years ! i = None \<and>
           release_years = map year (dropna (to_datetime parse (take i series @ drop (Suc i) series))) \<and>
           length release_years < length series \<and>
           groupby_size years = counts_by_year release_years"
proof -
  let ?dates = "to_datetime parse series"
  let ?years = "dt_year ?dates"
  let ?rys = "map year (dropna ?dates)"
  let ?df1 = "df_setitem df ''publicationDate'' (map datetime_cell ?dates)"
  let ?df' = "df_setitem ?df1 ''release_year'' (map number_cell ?years)"
  have run: "parse_dates parse df = Inr (?df', ?years, ?rys)"
    using assms(1) by (rule parse_dates_run)
  have n: "nrows ?df' = nrows df" by (simp add: nrows_df_setitem)
  have others: "\<forall>c. c \<noteq> ''publicationDate'' \<and> c \<noteq> ''release_year'' \<longrightarrow>
                  df_getitem ?df' c = df_getitem df c"
    by (simp add: df_getitem_setitem)
  have di: "?dates ! i = None" using assms(2,3) by (simp add: to_datetime_def)
  have dates: "df_getitem ?df' ''publicationDate'' = Inr (map datetime_cell ?dates) \<and>
               length (map datetime_cell ?dates) = length series \<and>
               map datetime_cell ?dates ! i = NaT"
    using assms(2) di by (simp add: df_getitem_setitem to_datetime_def datetime_cell_def)
  have yi: "?years ! i = None" using assms(2) di by (simp add: dt_year_def to_datetime_def)
  have ys: "df_getitem ?df' ''release_year'' = Inr (map number_cell ?years) \<and>
            length (map number_cell ?years) = length series \<and>
            map number_cell ?years ! i = NaN"
    using assms(2) yi by (simp add: df_getitem_setitem dt_year_def to_datetime_def number_cell_def)
  have split: "?dates = to_datetime parse (take i series) @ None # to_datetime parse (drop (Suc i) series)"
  proof -
    have "series = take i series @ series ! i # drop (Suc i) series"
      using assms(2) by (rule id_take_nth_drop)
    then have "?dates = to_datetime parse (take i series @ series ! i # drop (Suc i) series)"
      by simp
    then show ?thesis using assms(3) by (simp add: to_datetime_def)
  qed
  have without: "dropna ?dates = dropna (to_datetime parse (take i series @ drop (Suc i) series))"
    unfolding split by (simp add: to_datetime_def dropna_append)
  have "length (dropna (to_datetime parse (take i series @ drop (Suc i) series)))
          \<le> length (to_datetime parse (take i series @ drop (Suc i) series))"
    by (rule length_dropna_le)
  also have "\<dots> < length series" using assms(2) by (simp add: to_datetime_def)
  finally have less: "length ?rys < length series" by (simp add: without)
  have same: "groupby_size ?years = counts_by_year ?rys"
    using groupby_size_eq[of ?years] by (simp add: dt_year_def dropna_map)
  show ?thesis
  proof (rule exI[of _ ?df'], rule exI[of _ ?years], rule exI[of _ ?rys], intro conjI)
    show "\<exists>dates. df_getitem ?df' ''publicationDate'' = Inr dates \<and>
                    length dates = length series \<and> dates ! i = NaT"
      using dates by blast
    show "\<exists>ys. df_getitem ?df' ''release_year'' = Inr ys \<and>
                 length ys = length series \<and> ys ! i = NaN"
      using ys by blast
    show "?rys = map year (dropna (to_datetime parse (take i series @ drop (Suc i) series)))"
      by (simp only: without)
  qed (rule run n others yi less same)+
qed

text \<open>Three albums, the second with the publication date \<open>unknown\<close>: the table keeps
  its three rows, and the years counted are those of the other two.\<close>

theorem unparseable_date_excluded_witness:
  "df_getitem albums_with_unknown ''publicationDate''
     = Inr [Str ''1965-03-01T00:00:00Z'', Str ''unknown'', Str ''1970-01-01T00:00:00Z''] \<and>
   to_datetime_cell iso_parser (Str ''unknown'') = None \<and>
   (\<exists>df' years. parse_dates iso_parser albums_with_unknown = Inr (df', years, [1965, 1970]) \<and>
      nrows df' = 3 \<and> years ! 1 = None)"
proof -
  let ?series = "[Str ''1965-03-01T00:00:00Z'', Str ''unknown'', Str ''1970-01-01T00:00:00Z'']"
  have col: "df_getitem albums_with_unknown ''publicationDate'' = Inr ?series"
    by (simp add: albums_with_unknown_def DataFrame_def df_getitem_def getitem_def keys_def cell_of_def)
  have i: "1 < length ?series" by simp
  have bad: "to_datetime_cell iso_parser (Str ''unknown'') = None"
    by (simp add: iso_parser_def)
  then have bad': "to_datetime_cell iso_parser (?series ! 1) = None" by simp
  from unparseable_date_excluded[OF col i bad'] obtain df' years release_years where
    run: "parse_dates iso_parser albums_with_unknown = Inr (df', years, release_years)" and
    n: "nrows df' = nrows albums_with_unknown" and
    y: "years ! 1 = None" and
    rys: "release_years
            = map year (dropna (to_datetime iso_parser (take 1 ?series @ drop (Suc 1) ?series)))"
    by (elim exE conjE) (rule that, assumption+)
  have r: "release_years = [1965, 1970]"
    unfolding rys by (simp add: to_datetime_def iso_parser_def number_of_def digit_of_def)
  have three: "nrows albums_with_unknown = 3"
    by (simp add: albums_with_unknown_def DataFrame_def)
  have "parse_dates iso_parser albums_with_unknown = Inr (df', years, [1965, 1970]) \<and>
        nrows df' = 3 \<and> years ! 1 = None"
    using run n y unfolding r three by (intro conjI)
  then have "\<exists>df' years. parse_dates iso_parser albums_with_unknown = Inr (df', years, [1965, 1970]) \<and>
      nrows df' = 3 \<and> years ! 1 = None"
    by (intro exI)
  with col bad show ?thesis by (intro conjI)
qed

subsection \<open>What the report does to the albums table\<close>

text \<open>
  Claim C9, as the code has it. For an albums table with a publication-date and a
  performer column, the script runs to its end, and the frame it leaves behind is the one
  lines 130 and 131 made: the aggregations and the five plotting calls change nothing
  further. That frame has the rows of the fetched table; its columns are those of the
  fetched table, in order, with \<open>release_year\<close> added last if it was not there; every
  column but \<open>publicationDate\<close> and \<open>release_year\<close> is as fetched; \<open>publicationDate\<close>
  now holds the parsed timestamps and \<open>release_year\<close> their years.
\<close>

theorem report_frame_effect:
  assumes "df_getitem fetched ''publicationDate'' = Inr series"
    and "df_getitem fetched ''performerLabel'' = Inr labels"
  shows "\<exists>s. report parse fetched = Inr s \<and>
           (\<exists>years release_years. parse_dates parse fetched = Inr (albums_df s, years, release_years)) \<and>
           nrows (albums_df s) = nrows fetched \<and>
           keys (columns (albums_df s))
             = (if ''release_year'' \<in> set (keys (columns fetched)) then keys (columns fetched)
                else keys (columns fetched) @ [''release_year'']) \<and>
           (\<forall>c. c \<noteq> ''publicationDate'' \<and> c \<noteq> ''release_year'' \<longrightarrow>
                df_getitem (albums_df s) c = df_getitem fetched c) \<and>
           df_getitem (albums_df s) ''publicationDate''
             = Inr (map datetime_cell (to_datetime parse series)) \<and>
           df_getitem (albums_df s) ''release_year''
             = Inr (map number_cell (dt_year (to_datetime parse series)))"
proof -
  let ?df1 = "df_setitem fetched ''publicationDate'' (map datetime_cell (to_datetime parse series))"
  let ?df' = "df_setitem ?df1 ''release_year'' (map number_cell (dt_year (to_datetime parse series)))"
  from report_run[OF assms, of parse] obtain figs where
    run: "report parse fetched = Inr \<lparr>albums_df = ?df', shown = figs\<rparr>"
    by blast
  have pd: "''publicationDate'' \<in> set (keys (columns fetched))"
    using assms(1) map_of_None_keys[of "columns fetched" "''publicationDate''"]
    by (simp add: df_getitem_Inr_iff)
  have k: "keys (columns ?df')
             = (if ''release_year'' \<in> set (keys (columns fetched)) then keys (columns fetched)
                else keys (columns fetched) @ [''release_year''])"
    using pd by (simp add: columns_df_setitem keys_setitem)
  have lines: "\<exists>years release_years. parse_dates parse fetched = Inr (?df', years, release_years)"
    by (simp add: parse_dates_run[OF assms(1)])
  have n: "nrows ?df' = nrows fetched" by (simp add: nrows_df_setitem)
  have others: "\<forall>c. c \<noteq> ''publicationDate'' \<and> c \<noteq> ''release_year'' \<longrightarrow>
                  df_getitem ?df' c = df_getitem fetched c"
  proof (intro allI impI)
    fix c :: string assume "c \<noteq> ''publicationDate'' \<and> c \<noteq> ''release_year''"
    then have c: "c \<noteq> ''publicationDate''" "c \<noteq> ''release_year''" by blast+
    show "df_getitem ?df' c = df_getitem fetched c"
      unfolding df_getitem_setitem using c by (simp only: if_False)
  qed
  have d: "df_getitem ?df' ''publicationDate'' = Inr (map datetime_cell (to_datetime parse series))"
    by (simp add: df_getitem_setitem)
  have y: "df_getitem ?df' ''release_year'' = Inr (map number_cell (dt_year (to_datetime parse series)))"
    by (simp add: df_getitem_setitem)
  have sel: "albums_df \<lparr>albums_df = ?df', shown = figs\<rparr> = ?df'" by simp
  show ?thesis
    apply (rule exI[of _ "\<lparr>albums_df = ?df', shown = figs\<rparr>"])
    unfolding sel
    apply (intro conjI)
          apply (rule run)
         apply (rule lines)
        apply (rule n)
       apply (rule k)
      apply (rule others)
     apply (rule d)
    apply (rule y)
    done
qed

text \<open>The three albums of 1965, 1965 and 1970: three rows before and after, one column
  more, the performer column untouched.\<close>

theorem report_frame_effect_witness:
  "df_getitem three_albums ''publicationDate''
     = Inr [Str ''1965-03-01T00:00:00Z'', Str ''1965-11-20T00:00:00Z'', Str ''1970-01-01T00:00:00Z''] \<and>
   df_getitem three_albums ''performerLabel'' = Inr [Str ''A'', Str ''B'', Str ''A''] \<and>
   (\<exists>s. report iso_parser three_albums = Inr s \<and>
      nrows (albums_df s) = 3 \<and>
      keys (columns (albums_df s)) = [''performerLabel'', ''publicationDate'', ''release_year''] \<and>
      df_getitem (albums_df s) ''performerLabel'' = Inr [Str ''A'', Str ''B'', Str ''A''] \<and>
      df_getitem (albums_df s) ''release_year'' = Inr [Number 1965, Number 1965, Number 1970])"
proof -
  let ?series = "[Str ''1965-03-01T00:00:00Z'', Str ''1965-11-20T00:00:00Z'',
                  Str ''1970-01-01T00:00:00Z'']"
  let ?labels = "[Str ''A'', Str ''B'', Str ''A'']"
  have frame: "three_albums
                 = \<lparr>nrows = 3, columns = [(''performerLabel'', ?labels), (''publicationDate'', ?series)]\<rparr>"
    by (simp add: three_albums_def DataFrame_def keys_def cell_of_def)
  have col: "df_getitem three_albums ''publicationDate'' = Inr ?series"
    unfolding frame by (simp add: df_getitem_def getitem_def)
  have lab: "df_getitem three_albums ''performerLabel'' = Inr ?labels"
    unfolding frame by (simp add: df_getitem_def getitem_def)
  from report_frame_effect[OF col lab, of iso_parser] obtain s where
    run: "report iso_parser three_albums = Inr s" and
    n: "nrows (albums_df s) = nrows three_albums" and
    k: "keys (columns (albums_df s))
          = (if ''release_year'' \<in> set (keys (columns three_albums)) then keys (columns three_albums)
             else keys (columns three_albums) @ [''release_year''])" and
    others: "\<forall>c. c \<noteq> ''publicationDate'' \<and> c \<noteq> ''release_year'' \<longrightarrow>
               df_getitem (albums_df s) c = df_getitem three_albums c" and
    y: "df_getitem (albums_df s) ''release_year''
          = Inr (map number_cell (dt_year (to_datetime iso_parser ?series)))"
    by (elim exE conjE) (rule that, assumption+)
  have n3: "nrows (albums_df s) = 3" using n unfolding frame by simp
  have k3: "keys (columns (albums_df s)) = [''performerLabel'', ''publicationDate'', ''release_year'']"
    using k unfolding frame by (simp add: keys_def)
  have "df_getitem (albums_df s) ''performerLabel'' = df_getitem three_albums ''performerLabel''"
    using others by simp
  then have l3: "df_getitem (albums_df s) ''performerLabel'' = Inr ?labels"
    using lab by simp
  have y3: "df_getitem (albums_df s) ''release_year'' = Inr [Number 1965, Number 1965, Number 1970]"
    unfolding y
    by (simp add: to_datetime_def dt_year_def number_cell_def iso_parser_def number_of_def digit_of_def)
  have "\<exists>s. report iso_parser three_albums = Inr s \<and>
      nrows (albums_df s) = 3 \<and>
      keys (columns (albums_df s)) = [''performerLabel'', ''publicationDate'', ''release_year''] \<and>
      df_getitem (albums_df s) ''performerLabel'' = Inr ?labels \<and>
      df_getitem (albums_df s) ''release_year'' = Inr [Number 1965, Number 1965, Number 1970]"
    using run n3 k3 l3 y3 by (intro exI[of _ s] conjI)
  with col lab show ?thesis by (intro conjI)
qed

text \<open>
  Claim C9 as stated fails: the table is not left as fetched. After the report the three
  albums have timestamps where the fetched table had strings, and a third column.
\<close>

theorem report_mutates_counterexample:
  "three_albums =
     \<lparr>nrows = 3,
      columns = [(''performerLabel'', [Str ''A'', Str ''B'', Str ''A'']),
                 (''publicationDate'', [Str ''1965-03-01T00:00:00Z'', Str ''1965-11-20T00:00:00Z'',
                                        Str ''1970-01-01T00:00:00Z''])]\<rparr> \<and>
   map_sum id albums_df (report iso_parser three_albums) =
     Inr \<lparr>nrows = 3,
          columns = [(''performerLabel'', [Str ''A'', Str ''B'', Str ''A'']),
                     (''publicationDate'', [Timestamp (Date 1965 3 1 0 0 0), Timestamp (Date 1965 11 20 0 0 0),
                                            Timestamp (Date 1970 1 1 0 0 0)]),
                     (''release_year'', [Number 1965, Number 1965, Number 1970])]\<rparr> \<and>
   map_sum id albums_df (report iso_parser three_albums) \<noteq> Inr three_albums"
proof -
  have frame: "three_albums =
     \<lparr>nrows = 3,
      columns = [(''performerLabel'', [Str ''A'', Str ''B'', Str ''A'']),
                 (''publicationDate'', [Str ''1965-03-01T00:00:00Z'', Str ''1965-11-20T00:00:00Z'',
                                        Str ''1970-01-01T00:00:00Z''])]\<rparr>"
    by (simp add: three_albums_def DataFrame_def keys_def cell_of_def)
  have after: "map_sum id albums_df (report iso_parser three_albums) =
     Inr \<lparr>nrows = 3,
          columns = [(''performerLabel'', [Str ''A'', Str ''B'', Str ''A'']),
                     (''publicationDate'', [Timestamp (Date 1965 3 1 0 0 0), Timestamp (Date 1965 11 20 0 0 0),
                                            Timestamp (Date 1970 1 1 0 0 0)]),
                     (''release_year'', [Number 1965, Number 1965, Number 1970])]\<rparr>"
    unfolding frame
    by (simp add: report_def parse_dates_def performer_album_counts_def scatter_data_def
        df_getitem_def df_setitem_def getitem_def to_datetime_def dt_year_def datetime_cell_def
        number_cell_def iso_parser_def number_of_def digit_of_def)
  have "map_sum id albums_df (report iso_parser three_albums) \<noteq> Inr three_albums"
    unfolding after unfolding frame by simp
  with frame after show ?thesis by (intro conjI)
qed

subsection \<open>The scatter plot\<close>

text \<open>
  Claim C8, as the code has it. For an albums table with a publication-date and a
  performer column of the same length, the script runs to its end and shows five
  figures, the last of them the scatter plot. The scatter plot is given
  \<open>data=albums_df\<close>, the whole frame: one point per row of the table, in table order, with
  the row's performer label and its release year (\<open>NaN\<close> when the date did not parse). No
  row is left out for its performer.
\<close>

theorem scatter_plots_every_row:
  assumes "df_getitem fetched ''publicationDate'' = Inr series"
    and "df_getitem fetched ''performerLabel'' = Inr labels"
    and "length labels = length series"
  shows "\<exists>s points. report parse fetched = Inr s \<and>
           length (shown s) = 5 \<and>
           shown s ! 4 = ScatterPlot points \<and>
           scatter_data (albums_df s) = Inr points \<and>
           length points = length series \<and>
           (\<forall>i < length series.
              points ! i = (labels ! i, number_cell (map_option year (to_datetime_cell parse (series ! i)))))"
proof -
  let ?ys = "map number_cell (dt_year (to_datetime parse series))"
  let ?points = "zip labels ?ys"
  let ?df' = "df_setitem (df_setitem fetched ''publicationDate'' (map datetime_cell (to_datetime parse series)))
                ''release_year'' ?ys"
  from report_run[OF assms(1,2), of parse] obtain f1 f2 f3 f4 where
    run: "report parse fetched = Inr \<lparr>albums_df = ?df', shown = [f1, f2, f3, f4, ScatterPlot ?points]\<rparr>"
    by blast
  have sd: "scatter_data ?df' = Inr ?points"
    using assms(2) by (simp add: scatter_data_def df_getitem_setitem)
  have len: "length ?points = length series"
    using assms(3) by (simp add: dt_year_def to_datetime_def)
  have pts: "\<forall>i < length series.
               ?points ! i = (labels ! i, number_cell (map_option year (to_datetime_cell parse (series ! i))))"
    using assms(3) by (simp add: dt_year_def to_datetime_def)
  show ?thesis
    apply (rule exI[of _ "\<lparr>albums_df = ?df', shown = [f1, f2, f3, f4, ScatterPlot ?points]\<rparr>"])
    apply (rule exI[of _ ?points])
    apply (intro conjI)
         apply (rule run)
        apply simp
       apply simp
      apply (simp add: sd)
     apply (rule len)
    apply (rule pts)
    done
qed

text \<open>The three albums of 1965, 1965 and 1970 give three points.\<close>

theorem scatter_plots_every_row_witness:
  "df_getitem three_albums ''publicationDate''
     = Inr [Str ''1965-03-01T00:00:00Z'', Str ''1965-11-20T00:00:00Z'', Str ''1970-01-01T00:00:00Z''] \<and>
   df_getitem three_albums ''performerLabel'' = Inr [Str ''A'', Str ''B'', Str ''A''] \<and>
   (\<exists>s. report iso_parser three_albums = Inr s \<and>
      shown s ! 4 = ScatterPlot [(Str ''A'', Number 1965), (Str ''B'', Number 1965), (Str ''A'', Number 1970)])"
proof -
  let ?series = "[Str ''1965-03-01T00:00:00Z'', Str ''1965-11-20T00:00:00Z'',
                  Str ''1970-01-01T00:00:00Z'']"
  let ?labels = "[Str ''A'', Str ''B'', Str ''A'']"
  have frame: "three_albums
                 = \<lparr>nrows = 3, columns = [(''performerLabel'', ?labels), (''publicationDate'', ?series)]\<rparr>"
    by (simp add: three_albums_def DataFrame_def keys_def cell_of_def)
  have col: "df_getitem three_albums ''publicationDate'' = Inr ?series"
    unfolding frame by (simp add: df_getitem_def getitem_def)
  have lab: "df_getitem three_albums ''performerLabel'' = Inr ?labels"
    unfolding frame by (simp add: df_getitem_def getitem_def)
  have len: "length ?labels = length ?series" by simp
  from scatter_plots_every_row[OF col lab len, of iso_parser] obtain s points where
    run: "report iso_parser three_albums = Inr s" and
    fig: "shown s ! 4 = ScatterPlot points" and
    n: "length points = length ?series" and
    pts: "\<forall>i < length ?series.
            points ! i = (?labels ! i, number_cell (map_option year (to_datetime_cell iso_parser (?series ! i))))"
    by (elim exE conjE) (rule that, assumption+)
  have p0: "points ! 0 = (Str ''A'', Number 1965)"
    using pts[rule_format, of 0]
    by (simp add: number_cell_def iso_parser_def number_of_def digit_of_def)
  have p1: "points ! 1 = (Str ''B'', Number 1965)"
    using pts[rule_format, of 1]
    by (simp add: number_cell_def iso_parser_def number_of_def digit_of_def)
  have p2: "points ! 2 = (Str ''A'', Number 1970)"
    using pts[rule_format, of 2]
    by (simp add: number_cell_def iso_parser_def number_of_def digit_of_def)
  from n obtain a b c where abc: "points = [a, b, c]"
    by (auto simp: length_Suc_conv numeral_3_eq_3)
  have "points = [(Str ''A'', Number 1965), (Str ''B'', Number 1965), (Str ''A'', Number 1970)]"
    using p0 p1 p2 unfolding abc by simp
  with run fig have "\<exists>s. report iso_parser three_albums = Inr s \<and>
      shown s ! 4 = ScatterPlot [(Str ''A'', Number 1965), (Str ''B'', Number 1965), (Str ''A'', Number 1970)]"
    by (intro exI[of _ s] conjI) simp_all
  with col lab show ?thesis by (intro conjI)
qed

text \<open>
  Claim C8 as stated fails: the scatter plot is not restricted to the ten performers of
  the bar and pie charts. With eleven performers of one album each, those charts are
  given ten performers and the scatter plot all eleven rows, so whichever ten are kept,
  a performer outside them is plotted; here performer \<open>P11\<close> is plotted and is not among
  the ten.
\<close>

theorem scatter_not_top10_counterexample:
  "map_sum id shown (report iso_parser eleven_albums) =
     Inr [BarYears [(1970, 11)],
          BarPerformers [(Str ''P01'', 1), (Str ''P02'', 1), (Str ''P03'', 1), (Str ''P04'', 1), (Str ''P05'', 1),
                         (Str ''P06'', 1), (Str ''P07'', 1), (Str ''P08'', 1), (Str ''P09'', 1), (Str ''P10'', 1)],
          PiePerformers [(Str ''P01'', 1), (Str ''P02'', 1), (Str ''P03'', 1), (Str ''P04'', 1), (Str ''P05'', 1),
                         (Str ''P06'', 1), (Str ''P07'', 1), (Str ''P08'', 1), (Str ''P09'', 1), (Str ''P10'', 1)],
          LineYears [(1970, 11)],
          ScatterPlot [(Str ''P01'', Number 1970), (Str ''P02'', Number 1970), (Str ''P03'', Number 1970),
                       (Str ''P04'', Number 1970), (Str ''P05'', Number 1970), (Str ''P06'', Number 1970),
                       (Str ''P07'', Number 1970), (Str ''P08'', Number 1970), (Str ''P09'', Number 1970),
                       (Str ''P10'', Number 1970), (Str ''P11'', Number 1970)]] \<and>
   (Str ''P11'', Number 1970) \<in>
     set [(Str ''P01'', Number 1970), (Str ''P02'', Number 1970), (Str ''P03'', Number 1970),
          (Str ''P04'', Number 1970), (Str ''P05'', Number 1970), (Str ''P06'', Number 1970),
          (Str ''P07'', Number 1970), (Str ''P08'', Number 1970), (Str ''P09'', Number 1970),
          (Str ''P10'', Number 1970), (Str ''P11'', Number 1970)] \<and>
   Str ''P11'' \<notin>
     fst ` set [(Str ''P01'', 1 :: nat), (Str ''P02'', 1), (Str ''P03'', 1), (Str ''P04'', 1), (Str ''P05'', 1),
                (Str ''P06'', 1), (Str ''P07'', 1), (Str ''P08'', 1), (Str ''P09'', 1), (Str ''P10'', 1)]"
proof -
  have run: "map_sum id shown (report iso_parser eleven_albums) =
     Inr [BarYears [(1970, 11)],
          BarPerformers [(Str ''P01'', 1), (Str ''P02'', 1), (Str ''P03'', 1), (Str ''P04'', 1), (Str ''P05'', 1),
                         (Str ''P06'', 1), (Str ''P07'', 1), (Str ''P08'', 1), (Str ''P09'', 1), (Str ''P10'', 1)],
          PiePerformers [(Str ''P01'', 1), (Str ''P02'', 1), (Str ''P03'', 1), (Str ''P04'', 1), (Str ''P05'', 1),
                         (Str ''P06'', 1), (Str ''P07'', 1), (Str ''P08'', 1), (Str ''P09'', 1), (Str ''P10'', 1)],
          LineYears [(1970, 11)],
          ScatterPlot [(Str ''P01'', Number 1970), (Str ''P02'', Number 1970), (Str ''P03'', Number 1970),
                       (Str ''P04'', Number 1970), (Str ''P05'', Number 1970), (Str ''P06'', Number 1970),
                       (Str ''P07'', Number 1970), (Str ''P08'', Number 1970), (Str ''P09'', Number 1970),
                       (Str ''P10'', Number 1970), (Str ''P11'', Number 1970)]]"
    by code_simp
  show ?thesis
    by (rule conjI[OF run]) simp
qed

end
